theory Spec2Isabelle
  imports Complex_Main "HOL-Library.Log_Nat"
begin

text \<open>
  A model of the authentication routes, the authorization middleware, the user and
  performance models and the performance routes of the sales-performance backend, and the
  properties its specification states of them. A collection of the database is the list of
  its documents, a route is a function from the request and the collections to the reply
  and the new collections, and an exception is a value of a sum type. Requests are handled
  one after the other.
\<close>

section \<open>Common types\<close>

text \<open>
  Mongo object identifiers and their string form are one type where the code compares
  \<^verbatim>\<open>doc._id.toString()\<close> with \<^verbatim>\<open>req.user.id\<close>, which is an equality of
  identifiers, and where Mongoose casts the string to the type of the schema's path, as it
  does for the conditions of \<^verbatim>\<open>findOne\<close>, \<^verbatim>\<open>findById\<close> and
  \<^verbatim>\<open>findByIdAndUpdate\<close>. Dates are points on a discrete clock; the handlers receive
  the value of \<^verbatim>\<open>new Date()\<close> as an argument.
\<close>

type_synonym objectId = nat
type_synonym date = nat

text \<open>
  Mongoose does not cast the stages of an aggregation pipeline. A value such a stage
  compares with a stored identifier is an ObjectId or the string form of one, and in
  MongoDB a string is never equal to an ObjectId.
\<close>

datatype bson_id = ObjectId objectId | IdString objectId

text \<open>
  The \<^verbatim>\<open>message\<close> strings of the JSON replies, one constructor per literal of the source
  (the French text is in the comment of each).
\<close>

datatype message =
    DonneesInvalides              \<comment> \<open>"Donnees invalides"\<close>
  | ParametresInvalides           \<comment> \<open>"Parametres invalides"\<close>
  | EmailExisteDeja               \<comment> \<open>"Un utilisateur avec cet email existe deja"\<close>
  | UtilisateurCree               \<comment> \<open>"Utilisateur cree avec succes"\<close>
  | ErreurServeurInscription      \<comment> \<open>"Erreur serveur lors de l'inscription"\<close>
  | IdentifiantsInvalides         \<comment> \<open>"Identifiants invalides"\<close>
  | CompteBloqueContactez         \<comment> \<open>"Compte bloque. Contactez l'administrateur."\<close>
  | CompteInactifContactez        \<comment> \<open>"Compte inactif. Contactez l'administrateur."\<close>
  | ConnexionReussie              \<comment> \<open>"Connexion reussie"\<close>
  | ErreurServeurConnexion        \<comment> \<open>"Erreur serveur lors de la connexion"\<close>
  | TokenManquant                 \<comment> \<open>"Acces non autorise - Token manquant"\<close>
  | TokenInvalide                 \<comment> \<open>"Token invalide"\<close>
  | TokenExpire                   \<comment> \<open>"Token expire"\<close>
  | AccesNonAutorise              \<comment> \<open>"Acces non autorise"\<close>
  | TokenUtilisateurNonTrouve     \<comment> \<open>"Token invalide - utilisateur non trouve"\<close>
  | CompteInactif                 \<comment> \<open>"Compte inactif"\<close>
  | CompteBloque                  \<comment> \<open>"Compte bloque"\<close>
  | UtilisateurNonAuthentifie     \<comment> \<open>"Utilisateur non authentifie"\<close>
  | UtilisateurNonTrouve          \<comment> \<open>"Utilisateur non trouve"\<close>
  | RoleInsuffisant               \<comment> \<open>"Acces interdit : role insuffisant"\<close>
  | DonneesMisesAJour             \<comment> \<open>"Donnees mises a jour avec succes"\<close>
  | DonneesCreees                 \<comment> \<open>"Donnees creees avec succes"\<close>
  | DonneesExistentDeja           \<comment> \<open>"Des donnees existent deja pour cette periode"\<close>
  | ErreurServeur                 \<comment> \<open>"Erreur serveur"\<close>
  | PerformanceNonTrouvee         \<comment> \<open>"Donnees de performance non trouvees"\<close>
  | DonneesSupprimees             \<comment> \<open>"Donnees supprimees avec succes"\<close>

text \<open>
  A reply is \<^verbatim>\<open>res.status(s).json({success, message, ...})\<close>: the HTTP status, the
  \<^verbatim>\<open>success\<close> flag, the message when there is one, and the payload of a success.
\<close>

datatype 'd response =
  Response (status: nat) (success: bool) (message: "message option") (data: "'d option")

definition failure :: "nat \<Rightarrow> message \<Rightarrow> 'd response" where
  "failure s m = Response s False (Some m) None"

section \<open>The user model (models/User.js)\<close>

record user =
  u_id :: objectId
  nom :: string
  prenom :: string
  email :: string
  password :: string
  statut :: string
  role :: string
  telephone :: "string option"
  poste :: "string option"
  departement :: "string option"
  dateEmbauche :: "date option"
  derniereConnexion :: date
  tentativesConnexion :: int
  compteBloque :: bool
  dateBlocage :: "date option"

text \<open>
  \<^verbatim>\<open>this.save({ validateBeforeSave: false })\<close> writes the document back under its
  \<^verbatim>\<open>_id\<close>. The pre-save hook of the schema rehashes the password only when it was
  modified, which none of the three methods below does.
\<close>

definition save_user :: "user \<Rightarrow> user list \<Rightarrow> user list" where
  "save_user u users = map (\<lambda>x. if u_id x = u_id u then u else x) users"

definition updateLastLogin :: "date \<Rightarrow> user \<Rightarrow> user" where
  "updateLastLogin now u = u\<lparr>derniereConnexion := now, tentativesConnexion := 0\<rparr>"

definition incrementLoginAttempts :: "date \<Rightarrow> user \<Rightarrow> user" where
  "incrementLoginAttempts now u =
     (let u1 = u\<lparr>tentativesConnexion := tentativesConnexion u + 1\<rparr>
      in if tentativesConnexion u1 \<ge> 5
         then u1\<lparr>compteBloque := True, dateBlocage := Some now\<rparr>
         else u1)"

definition unlockAccount :: "user \<Rightarrow> user" where
  "unlockAccount u = u\<lparr>compteBloque := False, tentativesConnexion := 0, dateBlocage := None\<rparr>"

section \<open>Library functions the routes call\<close>

text \<open>
  The routes call into express-validator, bcryptjs and jsonwebtoken and into the string
  functions of JavaScript. These functions are parameters of the model, collected in one
  record, so every theorem holds for whatever they compute.
\<close>

datatype jwt_error = JsonWebTokenError | TokenExpiredError | NotBeforeError

record libs =
  isEmail :: "string \<Rightarrow> bool"
  normalizeEmail :: "string \<Rightarrow> string"
  toLowerCase :: "string \<Rightarrow> string"
  schemaEmailMatch :: "string \<Rightarrow> bool"
  bcrypt_hash :: "string \<Rightarrow> string"
  bcrypt_compare :: "string \<Rightarrow> string \<Rightarrow> bool"
  jwt_sign :: "objectId \<Rightarrow> string"
  jwt_verify :: "string \<Rightarrow> jwt_error + objectId"
  parseInt :: "string \<Rightarrow> int option"
  trim :: "string \<Rightarrow> string"

section \<open>Authentication routes (routes/auth)\<close>

definition findOne_email :: "user list \<Rightarrow> string \<Rightarrow> user option" where
  "findOne_email users e = find (\<lambda>u. email u = e) users"

definition findById_user :: "user list \<Rightarrow> objectId \<Rightarrow> user option" where
  "findById_user users i = find (\<lambda>u. u_id u = i) users"

text \<open>
  The \<^verbatim>\<open>user\<close> object of a reply, with the stored fields the replies of register and
  login share; the computed \<^verbatim>\<open>nomComplet\<close> and \<^verbatim>\<open>initiales\<close> and the
  \<^verbatim>\<open>derniereConnexion\<close> of the login reply are left out.
\<close>

record user_view =
  v_id :: objectId
  v_nom :: string
  v_prenom :: string
  v_email :: string
  v_role :: string

definition view_of :: "user \<Rightarrow> user_view" where
  "view_of u = \<lparr>v_id = u_id u, v_nom = nom u, v_prenom = prenom u, v_email = email u,
               v_role = role u\<rparr>"

record login_body =
  l_email :: string
  l_password :: string

text \<open>
  \<^verbatim>\<open>POST /api/auth/login\<close>. An absent body field is the empty string: \<^verbatim>\<open>notEmpty\<close>
  rejects both.
\<close>

definition login_valid :: "libs \<Rightarrow> login_body \<Rightarrow> bool" where
  "login_valid L req = (isEmail L (l_email req) \<and> l_password req \<noteq> [])"

definition login ::
  "libs \<Rightarrow> date \<Rightarrow> user list \<Rightarrow> login_body \<Rightarrow> (string \<times> user_view) response \<times> user list" where
  "login L now users req =
     (if \<not> login_valid L req
      then (failure 400 DonneesInvalides, users)
      else
        (case findOne_email users (normalizeEmail L (l_email req)) of
           None \<Rightarrow> (failure 401 IdentifiantsInvalides, users)
         | Some u \<Rightarrow>
             if compteBloque u then (failure 423 CompteBloqueContactez, users)
             else if statut u \<noteq> ''actif'' then (failure 403 CompteInactifContactez, users)
             else if \<not> bcrypt_compare L (l_password req) (password u)
             then (failure 401 IdentifiantsInvalides,
                   save_user (incrementLoginAttempts now u) users)
             else
               (let u' = updateLastLogin now u
                in (Response 200 True (Some ConnexionReussie)
                      (Some (jwt_sign L (u_id u'), view_of u')),
                    save_user u' users))))"


text \<open>
  The \<^verbatim>\<open>trim\<close> sanitizer of the validation chain and the \<^verbatim>\<open>trim\<close> option of
  the schema remove the white space of JavaScript at both ends of a string; that is the
  function \<open>trim\<close> of the libraries.
\<close>

record register_body =
  r_nom :: string
  r_prenom :: string
  r_email :: string
  r_password :: string
  r_telephone :: "string option"
  r_poste :: "string option"
  r_departement :: "string option"
  r_role :: "string option"

datatype db_error =
    ValidationError     \<comment> \<open>a schema validator failed\<close>
  | HookError           \<comment> \<open>a pre-save hook passed an \<^verbatim>\<open>Error\<close> to \<^verbatim>\<open>next\<close>\<close>
  | DuplicateKey        \<comment> \<open>a unique index was violated, \<^verbatim>\<open>error.code === 11000\<close>\<close>

text \<open>A new \<^verbatim>\<open>_id\<close> differs from every identifier of the collection.\<close>

definition new_id :: "objectId list \<Rightarrow> objectId" where
  "new_id ids = Suc (fold max ids 0)"

text \<open>
  \<^verbatim>\<open>User.create\<close>: the schema's setters and defaults, its validators, the pre-save hook
  that hashes the password, and the insertion under the unique indexes on \<^verbatim>\<open>_id\<close>
  and \<^verbatim>\<open>email\<close>.
\<close>

definition role_enum :: "string list" where
  "role_enum = [''admin'', ''manager'', ''utilisateur'']"

definition new_user :: "libs \<Rightarrow> date \<Rightarrow> objectId \<Rightarrow> register_body \<Rightarrow> user" where
  "new_user L now i b =
     \<lparr>u_id = i, nom = trim L (r_nom b), prenom = trim L (r_prenom b),
      email = toLowerCase L (r_email b),
      password = r_password b, statut = ''actif'',
      role = (case r_role b of None \<Rightarrow> ''utilisateur'' | Some r \<Rightarrow> r),
      telephone = map_option (trim L) (r_telephone b),
      poste = map_option (trim L) (r_poste b),
      departement = map_option (trim L) (r_departement b), dateEmbauche = Some now,
      derniereConnexion = now, tentativesConnexion = 0, compteBloque = False,
      dateBlocage = None\<rparr>"

definition user_schema_valid :: "libs \<Rightarrow> user \<Rightarrow> bool" where
  "user_schema_valid L u =
     (nom u \<noteq> [] \<and> length (nom u) \<le> 50 \<and> prenom u \<noteq> [] \<and> length (prenom u) \<le> 50 \<and>
      email u \<noteq> [] \<and> schemaEmailMatch L (email u) \<and>
      password u \<noteq> [] \<and> 6 \<le> length (password u) \<and>
      statut u \<in> set [''actif'', ''inactif''] \<and> role u \<in> set role_enum)"

definition User_create ::
  "libs \<Rightarrow> date \<Rightarrow> user list \<Rightarrow> register_body \<Rightarrow> db_error + user \<times> user list" where
  "User_create L now users b =
     (let doc = new_user L now (new_id (map u_id users)) b
      in if \<not> user_schema_valid L doc then Inl ValidationError
         else
           (let hashed = doc\<lparr>password := bcrypt_hash L (password doc)\<rparr>
            in if list_ex (\<lambda>x. u_id x = u_id hashed \<or> email x = email hashed) users
               then Inl DuplicateKey
               else Inr (hashed, users @ [hashed])))"

text \<open>
  \<^verbatim>\<open>POST /api/auth/register\<close>, a public route: no middleware runs before the handler.
  The sanitizers of the validation chain rewrite \<^verbatim>\<open>req.body\<close> (\<^verbatim>\<open>trim\<close>,
  \<^verbatim>\<open>normalizeEmail\<close>) before the handler reads it.
\<close>

definition register_valid :: "libs \<Rightarrow> register_body \<Rightarrow> bool" where
  "register_valid L req =
     (2 \<le> length (trim L (r_nom req)) \<and> 2 \<le> length (trim L (r_prenom req)) \<and>
      isEmail L (r_email req) \<and> 6 \<le> length (r_password req))"

definition register ::
  "libs \<Rightarrow> date \<Rightarrow> user list \<Rightarrow> register_body \<Rightarrow>
     (string \<times> user_view) response \<times> user list" where
  "register L now users req =
     (let body = req\<lparr>r_nom := trim L (r_nom req), r_prenom := trim L (r_prenom req),
                     r_email := normalizeEmail L (r_email req)\<rparr>
      in if \<not> register_valid L req
         then (failure 400 DonneesInvalides, users)
         else if findOne_email users (r_email body) \<noteq> None
         then (failure 400 EmailExisteDeja, users)
         else
           (case User_create L now users body of
              Inl e \<Rightarrow> (failure 500 ErreurServeurInscription, users)
            | Inr (u, users') \<Rightarrow>
                (Response 201 True (Some UtilisateurCree) (Some (jwt_sign L (u_id u), view_of u)),
                 users')))"

section \<open>The authorization gate (middleware/authMiddleware.js)\<close>

text \<open>\<^verbatim>\<open>s.split(c)\<close> of JavaScript, for a one-character separator.\<close>

fun split :: "char \<Rightarrow> string \<Rightarrow> string list" where
  "split c [] = [[]]"
| "split c (x # xs) =
     (if x = c then [] # split c xs
      else (case split c xs of [] \<Rightarrow> [[x]] | w # ws \<Rightarrow> (x # w) # ws))"

text \<open>\<^verbatim>\<open>req.headers.authorization.split(" ")[1]\<close>; \<open>None\<close> is \<^verbatim>\<open>undefined\<close>.\<close>

definition bearer_token :: "string \<Rightarrow> string option" where
  "bearer_token a = (case split CHR '' '' a of _ # t # _ \<Rightarrow> Some t | _ \<Rightarrow> None)"

text \<open>
  \<^verbatim>\<open>jwt.verify(token, secret)\<close> throws \<^verbatim>\<open>JsonWebTokenError\<close> for an undefined
  token; otherwise the library decides. The result is \<^verbatim>\<open>decoded.id\<close>.
\<close>

definition verify :: "libs \<Rightarrow> string option \<Rightarrow> jwt_error + objectId" where
  "verify L tok = (case tok of None \<Rightarrow> Inl JsonWebTokenError | Some t \<Rightarrow> jwt_verify L t)"

text \<open>\<^verbatim>\<open>req.user\<close>; \<open>i_id\<close> is its \<^verbatim>\<open>id\<close>.\<close>

record identity =
  i_id :: objectId
  i_email :: string
  i_nom :: string
  i_prenom :: string

definition identity_of :: "user \<Rightarrow> identity" where
  "identity_of u = \<lparr>i_id = u_id u, i_email = email u, i_nom = nom u, i_prenom = prenom u\<rparr>"

text \<open>
  \<^verbatim>\<open>protect\<close>: \<open>Inl\<close> is the reply it sends, \<open>Inr\<close> the \<^verbatim>\<open>req.user\<close> it
  attaches before calling \<^verbatim>\<open>next()\<close>. The header is \<open>None\<close> when absent;
  \<open>has_bearer\<close> is the condition
  \<^verbatim>\<open>req.headers.authorization && req.headers.authorization.startsWith("Bearer")\<close>.
\<close>

definition has_bearer :: "string option \<Rightarrow> bool" where
  "has_bearer authorization =
     (case authorization of None \<Rightarrow> False | Some a \<Rightarrow> a \<noteq> [] \<and> take 6 a = ''Bearer'')"

definition the_header :: "string option \<Rightarrow> string" where
  "the_header authorization = (case authorization of None \<Rightarrow> [] | Some a \<Rightarrow> a)"

definition protect :: "libs \<Rightarrow> user list \<Rightarrow> string option \<Rightarrow> 'd response + identity" where
  "protect L users authorization =
     (if has_bearer authorization
      then
        (case verify L (bearer_token (the_header authorization)) of
           Inr uid \<Rightarrow>
             (case findById_user users uid of
                None \<Rightarrow> Inl (failure 401 TokenUtilisateurNonTrouve)
              | Some u \<Rightarrow>
                  if statut u \<noteq> ''actif'' then Inl (failure 403 CompteInactif)
                  else if compteBloque u then Inl (failure 423 CompteBloque)
                  else Inr (identity_of u))
         | Inl e \<Rightarrow>
             if e = JsonWebTokenError then Inl (failure 401 TokenInvalide)
             else if e = TokenExpiredError then Inl (failure 401 TokenExpire)
             else Inl (failure 401 AccesNonAutorise))
      else Inl (failure 401 TokenManquant))"

text \<open>
  \<^verbatim>\<open>authorizeRoles(...roles)\<close>: \<open>Some\<close> is the reply it sends, \<open>None\<close> is
  \<^verbatim>\<open>next()\<close>.
\<close>

definition authorizeRoles :: "string list \<Rightarrow> user list \<Rightarrow> identity option \<Rightarrow> 'd response option" where
  "authorizeRoles roles users req_user =
     (case req_user of
        None \<Rightarrow> Some (failure 401 UtilisateurNonAuthentifie)
      | Some i \<Rightarrow>
          (case findById_user users (i_id i) of
             None \<Rightarrow> Some (failure 401 UtilisateurNonTrouve)
           | Some u \<Rightarrow>
               if role u \<notin> set roles then Some (failure 403 RoleInsuffisant)
               else None))"

text \<open>
  A route behind \<^verbatim>\<open>protect\<close> and then \<^verbatim>\<open>authorizeRoles(...roles)\<close>, as
  \<^verbatim>\<open>GET /api/performance/all\<close> is: the middlewares run in the order of registration, each
  one only when the one before called \<^verbatim>\<open>next()\<close>.
\<close>

definition gate :: "libs \<Rightarrow> string list \<Rightarrow> user list \<Rightarrow> string option \<Rightarrow> 'd response + identity" where
  "gate L roles users authorization =
     (case protect L users authorization of
        Inl r \<Rightarrow> Inl r
      | Inr i \<Rightarrow>
          (case authorizeRoles roles users (Some i) of
             Some r \<Rightarrow> Inl r
           | None \<Rightarrow> Inr i))"


section \<open>The performance model (models/Performance.js)\<close>

text \<open>
  A stored \<^verbatim>\<open>Number\<close> is an integer where the route admits only integers
  (\<^verbatim>\<open>isInt\<close>) and a rational otherwise, and the sums of the database are exact.
  The timestamps \<^verbatim>\<open>createdAt\<close> and \<^verbatim>\<open>updatedAt\<close> are left out.
\<close>

record performance =
  p_id :: objectId
  utilisateur :: objectId
  annee :: int
  mois :: int
  chiffreAffaires :: rat
  objectifCA :: rat
  nouveauxClients :: int
  rdvRealises :: int
  rdvPlanifies :: int
  ventesRealisees :: int
  dossiersMAJ :: int
  totalDossiers :: int
  evenements :: int
  satisfaction :: rat
  commentaires :: "string option"
  p_statut :: string
  dateValidation :: date

subsection \<open>Arithmetic of the JavaScript code\<close>

text \<open>
  A JavaScript \<^verbatim>\<open>Number\<close> is an IEEE 754 double: a finite number, an infinity or
  \<^verbatim>\<open>NaN\<close> (the sign of zero is left out). A division or multiplication yields the
  double nearest to the exact result, a tie going to the even significand.
  \<open>binade x\<close> is the exponent \<open>e\<close> with \<open>2 powi e \<le> x < 2 powi (e + 1)\<close> for a
  positive \<open>x\<close>. A double has a significand of 53 bits and an exponent of at least
  \<open>- 1022\<close>, so the doubles around \<open>x\<close> are the multiples of \<open>quantum x\<close>, which is
  \<open>2 powi (- 1074)\<close> for the subnormal numbers; a result that rounds to a magnitude of
  \<open>2 ^ 1024\<close> or more is an infinity.
\<close>

datatype js_number = Finite rat | PosInfinity | NegInfinity | NaN

definition round_even :: "rat \<Rightarrow> int" where
  "round_even x =
     (let f = \<lfloor>x\<rfloor>; d = x - of_int f
      in if d < 1 / 2 then f else if 1 / 2 < d then f + 1 else if even f then f else f + 1)"

definition binade :: "rat \<Rightarrow> int" where
  "binade x =
     (let (p, q) = quotient_of x; d = bitlen p - bitlen q
      in if 2 powi d \<le> x then d else d - 1)"

definition quantum :: "rat \<Rightarrow> rat" where
  "quantum x = 2 powi (max (binade \<bar>x\<bar>) (- 1022) - 52)"

definition round_double :: "rat \<Rightarrow> rat" where
  "round_double x =
     (if x = 0 then 0
      else sgn x * of_int (round_even (\<bar>x\<bar> / quantum x)) * quantum x)"

definition to_double :: "rat \<Rightarrow> js_number" where
  "to_double x =
     (let r = round_double x
      in if 1024 \<le> binade \<bar>r\<bar> then (if 0 < r then PosInfinity else NegInfinity)
         else Finite r)"

text \<open>
  \<^verbatim>\<open>x / y\<close> for two stored numbers, and \<^verbatim>\<open>v * c\<close> for a computed number and a
  constant.
\<close>

definition js_div :: "rat \<Rightarrow> rat \<Rightarrow> js_number" where
  "js_div x y =
     (if y = 0 then (if x = 0 then NaN else if 0 < x then PosInfinity else NegInfinity)
      else to_double (x / y))"

fun js_mul :: "js_number \<Rightarrow> rat \<Rightarrow> js_number" where
  "js_mul (Finite a) c = to_double (a * c)"
| "js_mul PosInfinity c = (if 0 < c then PosInfinity else if c < 0 then NegInfinity else NaN)"
| "js_mul NegInfinity c = (if 0 < c then NegInfinity else if c < 0 then PosInfinity else NaN)"
| "js_mul NaN c = NaN"

text \<open>
  \<^verbatim>\<open>Math.round\<close>: the nearest integer, a tie going up; an infinity and \<^verbatim>\<open>NaN\<close>
  are returned as they are.
\<close>

fun Math_round :: "js_number \<Rightarrow> js_number" where
  "Math_round (Finite x) = Finite (of_int \<lfloor>x + 1 / 2\<rfloor>)"
| "Math_round v = v"

definition tauxTransformation :: "performance \<Rightarrow> js_number" where
  "tauxTransformation p =
     (if rdvRealises p = 0 then Finite 0
      else Math_round (js_mul (js_div (of_int (ventesRealisees p)) (of_int (rdvRealises p))) 100))"

definition completudeDossiers :: "performance \<Rightarrow> js_number" where
  "completudeDossiers p =
     (if totalDossiers p = 0 then Finite 0
      else Math_round (js_mul (js_div (of_int (dossiersMAJ p)) (of_int (totalDossiers p))) 100))"

definition tauxObjectif :: "performance \<Rightarrow> js_number" where
  "tauxObjectif p =
     (if objectifCA p = 0 then Finite 0
      else Math_round (js_mul (js_div (chiffreAffaires p) (objectifCA p)) 100))"

text \<open>
  The validators of the schema's paths (\<^verbatim>\<open>min\<close>, \<^verbatim>\<open>max\<close>, \<^verbatim>\<open>maxlength\<close>,
  \<^verbatim>\<open>enum\<close>); \<^verbatim>\<open>required\<close> holds of a typed document.
\<close>

definition schema_valid :: "performance \<Rightarrow> bool" where
  "schema_valid p =
     (2020 \<le> annee p \<and> annee p \<le> 2030 \<and> 1 \<le> mois p \<and> mois p \<le> 12 \<and>
      0 \<le> chiffreAffaires p \<and> 0 \<le> objectifCA p \<and> 0 \<le> nouveauxClients p \<and>
      0 \<le> rdvRealises p \<and> 0 \<le> rdvPlanifies p \<and> 0 \<le> ventesRealisees p \<and>
      0 \<le> dossiersMAJ p \<and> 0 \<le> totalDossiers p \<and> 0 \<le> evenements p \<and>
      1 \<le> satisfaction p \<and> satisfaction p \<le> 5 \<and>
      (case commentaires p of None \<Rightarrow> True | Some c \<Rightarrow> length c \<le> 500) \<and>
      p_statut p \<in> set [''brouillon'', ''valide''])"

text \<open>
  \<^verbatim>\<open>performanceSchema.pre("save", ...)\<close>: \<open>True\<close> when the hook calls
  \<^verbatim>\<open>next()\<close> with no error.
\<close>

definition pre_save :: "performance \<Rightarrow> bool" where
  "pre_save p =
     (if ventesRealisees p > rdvRealises p then False
      else if dossiersMAJ p > totalDossiers p then False
      else True)"

section \<open>Performance routes (routes/performance)\<close>

text \<open>
  The body of \<^verbatim>\<open>POST /api/performance\<close> after JSON parsing: the fields the validation
  chain requires are present and are JSON numbers, the others are optional. A body cannot
  name an \<^verbatim>\<open>_id\<close>.
\<close>

record perf_body =
  b_annee :: int
  b_mois :: int
  b_chiffreAffaires :: rat
  b_objectifCA :: rat
  b_nouveauxClients :: int
  b_rdvRealises :: int
  b_rdvPlanifies :: "int option"
  b_ventesRealisees :: int
  b_dossiersMAJ :: int
  b_totalDossiers :: int
  b_evenements :: "int option"
  b_satisfaction :: "rat option"
  b_commentaires :: "string option"
  b_statut :: "string option"

text \<open>
  The validators of express-validator test the text of a value, \<^verbatim>\<open>String(value)\<close>.
  JavaScript writes a number in decimal notation when it is 0 or its magnitude is at least
  \<open>10 powi (- 6)\<close> and less than \<open>10 ^ 21\<close>, and with an exponent otherwise. The patterns
  of \<^verbatim>\<open>isInt\<close> and \<^verbatim>\<open>isNumeric\<close> admit a sign, digits and a decimal point but no
  exponent; the pattern of \<^verbatim>\<open>isFloat\<close> admits an exponent.
\<close>

definition decimal_notation :: "rat \<Rightarrow> bool" where
  "decimal_notation x = (x = 0 \<or> (1 / 10 ^ 6 \<le> \<bar>x\<bar> \<and> \<bar>x\<bar> < 10 ^ 21))"

definition isInt :: "int \<Rightarrow> int option \<Rightarrow> int \<Rightarrow> bool" where
  "isInt lo hi n =
     (decimal_notation (of_int n) \<and> lo \<le> n \<and> (case hi of None \<Rightarrow> True | Some h \<Rightarrow> n \<le> h))"

definition isNumeric :: "rat \<Rightarrow> bool" where
  "isNumeric x = decimal_notation x"

definition isFloat :: "rat \<Rightarrow> rat \<Rightarrow> rat \<Rightarrow> bool" where
  "isFloat lo hi x = (lo \<le> x \<and> x \<le> hi)"

text \<open>The validation chain of the route, in the order of the source.\<close>

definition body_valid :: "perf_body \<Rightarrow> bool" where
  "body_valid b =
     (isInt 2020 (Some 2030) (b_annee b) \<and> isInt 1 (Some 12) (b_mois b) \<and>
      isNumeric (b_chiffreAffaires b) \<and> isNumeric (b_objectifCA b) \<and>
      isInt 0 None (b_nouveauxClients b) \<and> isInt 0 None (b_rdvRealises b) \<and>
      isInt 0 None (b_ventesRealisees b) \<and> isInt 0 None (b_dossiersMAJ b) \<and>
      isInt 0 None (b_totalDossiers b) \<and>
      (case b_evenements b of None \<Rightarrow> True | Some e \<Rightarrow> isInt 0 None e) \<and>
      (case b_satisfaction b of None \<Rightarrow> True | Some s \<Rightarrow> isFloat 1 5 s))"

definition findOne_period :: "performance list \<Rightarrow> objectId \<Rightarrow> int \<Rightarrow> int \<Rightarrow> performance option" where
  "findOne_period store uid y m =
     find (\<lambda>p. utilisateur p = uid \<and> annee p = y \<and> mois p = m) store"

definition findById :: "performance list \<Rightarrow> objectId \<Rightarrow> performance option" where
  "findById store i = find (\<lambda>p. p_id p = i) store"

text \<open>\<^verbatim>\<open>new Performance(performanceData)\<close>: the body's fields and the schema's defaults.\<close>

definition new_performance :: "date \<Rightarrow> objectId \<Rightarrow> objectId \<Rightarrow> perf_body \<Rightarrow> performance" where
  "new_performance now i uid b =
     \<lparr>p_id = i, utilisateur = uid, annee = b_annee b, mois = b_mois b,
      chiffreAffaires = b_chiffreAffaires b, objectifCA = b_objectifCA b,
      nouveauxClients = b_nouveauxClients b, rdvRealises = b_rdvRealises b,
      rdvPlanifies = (case b_rdvPlanifies b of None \<Rightarrow> 0 | Some x \<Rightarrow> x),
      ventesRealisees = b_ventesRealisees b, dossiersMAJ = b_dossiersMAJ b,
      totalDossiers = b_totalDossiers b,
      evenements = (case b_evenements b of None \<Rightarrow> 0 | Some x \<Rightarrow> x),
      satisfaction = (case b_satisfaction b of None \<Rightarrow> 4 | Some x \<Rightarrow> x),
      commentaires = b_commentaires b,
      p_statut = (case b_statut b of None \<Rightarrow> ''valide'' | Some x \<Rightarrow> x),
      dateValidation = now\<rparr>"

text \<open>
  \<^verbatim>\<open>Performance.create(performanceData)\<close>: the document is validated against the schema,
  then the pre-save hook runs, then the document is inserted under the unique indexes on
  \<^verbatim>\<open>_id\<close> and on (utilisateur, periode.annee, periode.mois).
\<close>

definition Performance_create ::
  "date \<Rightarrow> objectId \<Rightarrow> perf_body \<Rightarrow> performance list \<Rightarrow> db_error + performance \<times> performance list" where
  "Performance_create now uid b store =
     (let doc = new_performance now (new_id (map p_id store)) uid b
      in if \<not> schema_valid doc then Inl ValidationError
         else if \<not> pre_save doc then Inl HookError
         else if list_ex (\<lambda>p. p_id p = p_id doc \<or>
                   (utilisateur p = utilisateur doc \<and> annee p = annee doc \<and> mois p = mois doc)) store
         then Inl DuplicateKey
         else Inr (doc, store @ [doc]))"

text \<open>
  \<^verbatim>\<open>Performance.findByIdAndUpdate(id, performanceData, {new: true, runValidators: true})\<close>.
  The update sets the paths the body names and leaves the others. With
  \<^verbatim>\<open>runValidators\<close> the validators of the schema's paths run on the values of the update;
  document middleware (\<^verbatim>\<open>pre("save")\<close>) is not run by a query. The result is the
  updated document (\<^verbatim>\<open>new: true\<close>), or \<open>None\<close> for \<^verbatim>\<open>null\<close>.
\<close>

definition update_valid :: "perf_body \<Rightarrow> bool" where
  "update_valid b =
     (2020 \<le> b_annee b \<and> b_annee b \<le> 2030 \<and> 1 \<le> b_mois b \<and> b_mois b \<le> 12 \<and>
      0 \<le> b_chiffreAffaires b \<and> 0 \<le> b_objectifCA b \<and> 0 \<le> b_nouveauxClients b \<and>
      0 \<le> b_rdvRealises b \<and>
      (case b_rdvPlanifies b of None \<Rightarrow> True | Some x \<Rightarrow> 0 \<le> x) \<and>
      0 \<le> b_ventesRealisees b \<and> 0 \<le> b_dossiersMAJ b \<and> 0 \<le> b_totalDossiers b \<and>
      (case b_evenements b of None \<Rightarrow> True | Some x \<Rightarrow> 0 \<le> x) \<and>
      (case b_satisfaction b of None \<Rightarrow> True | Some x \<Rightarrow> 1 \<le> x \<and> x \<le> 5) \<and>
      (case b_commentaires b of None \<Rightarrow> True | Some c \<Rightarrow> length c \<le> 500) \<and>
      (case b_statut b of None \<Rightarrow> True | Some x \<Rightarrow> x \<in> set [''brouillon'', ''valide'']))"

definition apply_update :: "objectId \<Rightarrow> perf_body \<Rightarrow> performance \<Rightarrow> performance" where
  "apply_update uid b p =
     p\<lparr>utilisateur := uid, annee := b_annee b, mois := b_mois b,
       chiffreAffaires := b_chiffreAffaires b, objectifCA := b_objectifCA b,
       nouveauxClients := b_nouveauxClients b, rdvRealises := b_rdvRealises b,
       rdvPlanifies := (case b_rdvPlanifies b of None \<Rightarrow> rdvPlanifies p | Some x \<Rightarrow> x),
       ventesRealisees := b_ventesRealisees b, dossiersMAJ := b_dossiersMAJ b,
       totalDossiers := b_totalDossiers b,
       evenements := (case b_evenements b of None \<Rightarrow> evenements p | Some x \<Rightarrow> x),
       satisfaction := (case b_satisfaction b of None \<Rightarrow> satisfaction p | Some x \<Rightarrow> x),
       commentaires := (case b_commentaires b of None \<Rightarrow> commentaires p | Some c \<Rightarrow> Some c),
       p_statut := (case b_statut b of None \<Rightarrow> p_statut p | Some x \<Rightarrow> x)\<rparr>"

fun update_first :: "objectId \<Rightarrow> (performance \<Rightarrow> performance) \<Rightarrow> performance list \<Rightarrow> performance list" where
  "update_first i f [] = []"
| "update_first i f (p # ps) = (if p_id p = i then f p # ps else p # update_first i f ps)"

definition findByIdAndUpdate ::
  "objectId \<Rightarrow> objectId \<Rightarrow> perf_body \<Rightarrow> performance list \<Rightarrow>
     db_error + performance option \<times> performance list" where
  "findByIdAndUpdate i uid b store =
     (if \<not> update_valid b then Inl ValidationError
      else
        (let store' = update_first i (apply_update uid b) store
         in Inr (findById store' i, store')))"

text \<open>
  \<^verbatim>\<open>POST /api/performance\<close>, behind \<^verbatim>\<open>protect\<close>: \<open>uid\<close> is \<^verbatim>\<open>req.user.id\<close>.
  An error thrown in the \<^verbatim>\<open>try\<close> block is answered by the \<^verbatim>\<open>catch\<close> block: 400 for
  a duplicate key, 500 for anything else; nothing was written then.
\<close>

definition upsert ::
  "date \<Rightarrow> objectId \<Rightarrow> perf_body \<Rightarrow> performance list \<Rightarrow> performance response \<times> performance list" where
  "upsert now uid b store =
     (if \<not> body_valid b then (failure 400 DonneesInvalides, store)
      else
        (case findOne_period store uid (b_annee b) (b_mois b) of
           Some existingPerformance \<Rightarrow>
             (case findByIdAndUpdate (p_id existingPerformance) uid b store of
                Inr (performance, store') \<Rightarrow>
                  (Response 200 True (Some DonneesMisesAJour) performance, store')
              | Inl e \<Rightarrow>
                  if e = DuplicateKey then (failure 400 DonneesExistentDeja, store)
                  else (failure 500 ErreurServeur, store))
         | None \<Rightarrow>
             (case Performance_create now uid b store of
                Inr (performance, store') \<Rightarrow>
                  (Response 201 True (Some DonneesCreees) (Some performance), store')
              | Inl e \<Rightarrow>
                  if e = DuplicateKey then (failure 400 DonneesExistentDeja, store)
                  else (failure 500 ErreurServeur, store))))"

text \<open>
  \<^verbatim>\<open>GET /api/performance/:id\<close>, behind \<^verbatim>\<open>protect\<close>. \<^verbatim>\<open>populate\<close> replaces the
  owner's identifier by the owner's document, or by \<^verbatim>\<open>null\<close> when no such user exists;
  reading \<^verbatim>\<open>_id\<close> of \<^verbatim>\<open>null\<close> throws, and the \<^verbatim>\<open>catch\<close> block answers 500.
\<close>

definition getPerformance ::
  "user list \<Rightarrow> performance list \<Rightarrow> identity \<Rightarrow> objectId \<Rightarrow> performance response" where
  "getPerformance users store req_user i =
     (case findById store i of
        None \<Rightarrow> failure 404 PerformanceNonTrouvee
      | Some p \<Rightarrow>
          (case findById_user users (utilisateur p) of
             None \<Rightarrow> failure 500 ErreurServeur
           | Some owner \<Rightarrow>
               if u_id owner \<noteq> i_id req_user then failure 403 AccesNonAutorise
               else Response 200 True None (Some p)))"

fun remove_first :: "objectId \<Rightarrow> performance list \<Rightarrow> performance list" where
  "remove_first i [] = []"
| "remove_first i (p # ps) = (if p_id p = i then ps else p # remove_first i ps)"

text \<open>\<^verbatim>\<open>DELETE /api/performance/:id\<close>, behind \<^verbatim>\<open>protect\<close>.\<close>

definition deletePerformance ::
  "performance list \<Rightarrow> identity \<Rightarrow> objectId \<Rightarrow> performance response \<times> performance list" where
  "deletePerformance store req_user i =
     (case findById store i of
        None \<Rightarrow> (failure 404 PerformanceNonTrouvee, store)
      | Some p \<Rightarrow>
          if utilisateur p \<noteq> i_id req_user then (failure 403 AccesNonAutorise, store)
          else (Response 200 True (Some DonneesSupprimees) None, remove_first i store))"

text \<open>
  The two routes as the router serves them: \<^verbatim>\<open>router.use(protect)\<close> runs first, and the
  handler only when it attached \<^verbatim>\<open>req.user\<close>.
\<close>

definition route_get ::
  "libs \<Rightarrow> user list \<Rightarrow> performance list \<Rightarrow> string option \<Rightarrow> objectId \<Rightarrow> performance response" where
  "route_get L users store authorization i =
     (case protect L users authorization of
        Inl r \<Rightarrow> r
      | Inr req_user \<Rightarrow> getPerformance users store req_user i)"

definition route_delete ::
  "libs \<Rightarrow> user list \<Rightarrow> performance list \<Rightarrow> string option \<Rightarrow> objectId \<Rightarrow>
     performance response \<times> performance list" where
  "route_delete L users store authorization i =
     (case protect L users authorization of
        Inl r \<Rightarrow> (r, store)
      | Inr req_user \<Rightarrow> deletePerformance store req_user i)"

subsection \<open>The summary\<close>

record group_stats =
  totalCA :: rat
  totalObjectif :: rat
  totalClients :: int
  totalRDV :: int
  totalVentes :: int
  totalEvenements :: int
  satisfactionMoyenne :: rat
  count :: nat

record summary_stats = group_stats +
  s_tauxTransformation :: js_number
  s_tauxObjectif :: js_number

text \<open>
  The \<^verbatim>\<open>$match\<close> stage: equality of the stored owner, an ObjectId, with the
  \<^verbatim>\<open>utilisateur\<close> of the filter, of the stored year with the year of the filter, of
  the stored status with ``valide'', and of the stored month with the month of the filter
  when the filter has one. The year of the filter is \<^verbatim>\<open>Number.parseInt(annee)\<close>,
  \<open>None\<close> when that is \<^verbatim>\<open>NaN\<close>; the month is in the filter only when the query has a
  non-empty \<^verbatim>\<open>mois\<close>.
\<close>

definition matchFilter :: "bson_id \<Rightarrow> int option \<Rightarrow> int option option \<Rightarrow> performance \<Rightarrow> bool" where
  "matchFilter uid y m p =
     (ObjectId (utilisateur p) = uid \<and> y = Some (annee p) \<and> p_statut p = ''valide'' \<and>
      (case m of None \<Rightarrow> True | Some mm \<Rightarrow> mm = Some (mois p)))"

text \<open>The \<^verbatim>\<open>$group\<close> stage with \<^verbatim>\<open>_id: null\<close>: one group, or none for no document.\<close>

definition group_stage :: "performance list \<Rightarrow> group_stats list" where
  "group_stage docs =
     (if docs = [] then []
      else [\<lparr>totalCA = sum_list (map chiffreAffaires docs),
             totalObjectif = sum_list (map objectifCA docs),
             totalClients = sum_list (map nouveauxClients docs),
             totalRDV = sum_list (map rdvRealises docs),
             totalVentes = sum_list (map ventesRealisees docs),
             totalEvenements = sum_list (map evenements docs),
             satisfactionMoyenne = sum_list (map satisfaction docs) / of_nat (length docs),
             count = length docs\<rparr>])"

definition aggregate :: "bson_id \<Rightarrow> int option \<Rightarrow> int option option \<Rightarrow> performance list \<Rightarrow> group_stats list" where
  "aggregate uid y m store = group_stage (filter (matchFilter uid y m) store)"

text \<open>
  The two rates the handler adds to the result of the aggregation
  (\<^verbatim>\<open>result.tauxTransformation = ...\<close>, \<^verbatim>\<open>result.tauxObjectif = ...\<close>).
\<close>

definition with_rates :: "group_stats \<Rightarrow> summary_stats" where
  "with_rates result =
     \<lparr>totalCA = totalCA result, totalObjectif = totalObjectif result,
      totalClients = totalClients result, totalRDV = totalRDV result,
      totalVentes = totalVentes result, totalEvenements = totalEvenements result,
      satisfactionMoyenne = satisfactionMoyenne result, count = count result,
      s_tauxTransformation =
        (if totalRDV result > 0
         then Math_round
                (js_mul (js_div (of_int (totalVentes result)) (of_int (totalRDV result))) 100)
         else Finite 0),
      s_tauxObjectif =
        (if totalObjectif result > 0
         then Math_round (js_mul (js_div (totalCA result) (totalObjectif result)) 100)
         else Finite 0)\<rparr>"

text \<open>
  \<^verbatim>\<open>GET /api/performance/stats/summary\<close>, behind \<^verbatim>\<open>protect\<close>. \<open>year_now\<close> is
  \<^verbatim>\<open>new Date().getFullYear()\<close>; \<open>q_annee\<close> and \<open>q_mois\<close> are the query's strings.
  The \<^verbatim>\<open>utilisateur\<close> of the filter is \<^verbatim>\<open>req.user.id\<close>, a string.
\<close>

definition filter_annee :: "libs \<Rightarrow> int \<Rightarrow> string option \<Rightarrow> int option" where
  "filter_annee L year_now q_annee =
     (case q_annee of None \<Rightarrow> Some year_now | Some a \<Rightarrow> parseInt L a)"

definition filter_mois :: "libs \<Rightarrow> string option \<Rightarrow> int option option" where
  "filter_mois L q_mois =
     (case q_mois of None \<Rightarrow> None | Some s \<Rightarrow> if s = [] then None else Some (parseInt L s))"

definition summary ::
  "libs \<Rightarrow> int \<Rightarrow> objectId \<Rightarrow> string option \<Rightarrow> string option \<Rightarrow> performance list \<Rightarrow>
     summary_stats response" where
  "summary L year_now uid q_annee q_mois store =
     (let stats = aggregate (IdString uid) (filter_annee L year_now q_annee)
                    (filter_mois L q_mois) store;
          result = (case stats of
                      g # _ \<Rightarrow> g
                    | [] \<Rightarrow> \<lparr>totalCA = 0, totalObjectif = 0, totalClients = 0, totalRDV = 0,
                             totalVentes = 0, totalEvenements = 0, satisfactionMoyenne = 0,
                             count = 0\<rparr>)
      in Response 200 True None (Some (with_rates result)))"


section \<open>Notions the statements use\<close>

text \<open>
  The lockout fields of a user, as the routes leave them: a user who is not blocked has
  failed fewer than five times since the last reset, and a blocked user was blocked by the
  fifth failure. A new user satisfies it and every route preserves it (lemmas
  \<open>new_user_lockout_inv\<close>, \<open>login_preserves_lockout_inv\<close>,
  \<open>register_preserves_lockout_inv\<close>).
\<close>

definition lockout_inv :: "user \<Rightarrow> bool" where
  "lockout_inv u =
     (if compteBloque u then tentativesConnexion u = 5 \<and> dateBlocage u \<noteq> None
      else 0 \<le> tentativesConnexion u \<and> tentativesConnexion u < 5)"

text \<open>
  The rate the specification describes: \<open>round (100 * num / den)\<close>, and 0 for a zero
  denominator. \<open>js_percent\<close> is the expression the code evaluates for a non-zero
  denominator. \<open>normal_range num den\<close> says that the quotient is 0 or at least the
  least normal double, and that the percentage is at most \<open>2 ^ 1023\<close>: no rounding
  underflows or overflows then.
\<close>

definition js_percent :: "rat \<Rightarrow> rat \<Rightarrow> js_number" where
  "js_percent num den = Math_round (js_mul (js_div num den) 100)"

definition normal_range :: "rat \<Rightarrow> rat \<Rightarrow> bool" where
  "normal_range num den =
     (num = 0 \<or> (2 powi (- 1022) \<le> num / den \<and> 100 * num / den \<le> 2 ^ 1023))"

definition spec_rate :: "rat \<Rightarrow> rat \<Rightarrow> int" where
  "spec_rate num den = (if den = 0 then 0 else round (100 * num / den))"

definition zero_stats :: summary_stats where
  "zero_stats = \<lparr>totalCA = 0, totalObjectif = 0, totalClients = 0, totalRDV = 0,
     totalVentes = 0, totalEvenements = 0, satisfactionMoyenne = 0, count = 0,
     s_tauxTransformation = Finite 0, s_tauxObjectif = Finite 0\<rparr>"

subsection \<open>Sample data\<close>

text \<open>
  Stand-ins for the libraries, for evaluating the routes on concrete requests: an email
  has an at sign, the hash of a password is the password after a hash sign, the token of
  user \<open>i\<close> is \<open>i\<close> letters t, and trimming removes the blanks at both ends.
\<close>

definition sample_libs :: libs where
  "sample_libs =
     \<lparr>isEmail = (\<lambda>s. CHR ''@'' \<in> set s), normalizeEmail = (\<lambda>s. s), toLowerCase = (\<lambda>s. s),
      schemaEmailMatch = (\<lambda>s. CHR ''@'' \<in> set s),
      bcrypt_hash = (\<lambda>s. CHR ''#'' # s), bcrypt_compare = (\<lambda>p h. h = CHR ''#'' # p),
      jwt_sign = (\<lambda>i. replicate i CHR ''t''),
      jwt_verify = (\<lambda>t. if t = ''expired'' then Inl TokenExpiredError
                          else if t \<noteq> [] \<and> list_all (\<lambda>c. c = CHR ''t'') t then Inr (length t)
                          else Inl JsonWebTokenError),
      parseInt = (\<lambda>s. if s = ''2024'' then Some 2024 else if s = ''3'' then Some 3 else None),
      trim = (\<lambda>s. rev (dropWhile (\<lambda>c. c = CHR '' '') (rev (dropWhile (\<lambda>c. c = CHR '' '') s))))\<rparr>"

definition marie :: user where
  "marie =
     \<lparr>u_id = 1, nom = ''Therese'', prenom = ''Marie'', email = ''marie@wawtelecom.com'',
      password = ''#password123'', statut = ''actif'', role = ''utilisateur'',
      telephone = None, poste = None, departement = None, dateEmbauche = None,
      derniereConnexion = 0, tentativesConnexion = 0, compteBloque = False,
      dateBlocage = None\<rparr>"

definition boura :: user where
  "boura =
     \<lparr>u_id = 2, nom = ''Ngom'', prenom = ''Bourama'', email = ''boura@wawtelecom.com'',
      password = ''#password123'', statut = ''actif'', role = ''admin'',
      telephone = None, poste = None, departement = None, dateEmbauche = None,
      derniereConnexion = 0, tentativesConnexion = 0, compteBloque = False,
      dateBlocage = None\<rparr>"

definition body_mars :: perf_body where
  "body_mars =
     \<lparr>b_annee = 2024, b_mois = 3, b_chiffreAffaires = 90000, b_objectifCA = 100000,
      b_nouveauxClients = 12, b_rdvRealises = 40, b_rdvPlanifies = None,
      b_ventesRealisees = 20, b_dossiersMAJ = 100, b_totalDossiers = 150,
      b_evenements = None, b_satisfaction = None, b_commentaires = None, b_statut = None\<rparr>"

definition perf_mars :: performance where
  "perf_mars = new_performance 0 1 1 body_mars"

text \<open>The totals of an aggregation over the record of March.\<close>

definition totaux_mars :: group_stats where
  "totaux_mars =
     \<lparr>totalCA = 90000, totalObjectif = 100000, totalClients = 12, totalRDV = 40,
      totalVentes = 20, totalEvenements = 0, satisfactionMoyenne = 4, count = 1\<rparr>"

definition marie_bloquee :: user where
  "marie_bloquee = marie\<lparr>tentativesConnexion := 5, compteBloque := True, dateBlocage := Some 3\<rparr>"

definition inscription :: register_body where
  "inscription =
     \<lparr>r_nom = ''Fall'', r_prenom = ''Binta'', r_email = ''binta@wawtelecom.com'',
      r_password = ''password123'', r_telephone = None, r_poste = None,
      r_departement = None, r_role = None\<rparr>"

subsection \<open>The order of the gate's checks\<close>

text \<open>
  The checks of the gate in the order the specification gives them: missing token,
  invalid or expired token, user lookup, account inactive, account blocked, insufficient
  role. Each check is a condition on the request and the store alone; \<open>token_user\<close> is
  the account the token names, when the token verifies and the account exists.
\<close>

datatype gate_check = MissingToken | BadToken | UserLookup | Inactive | Blocked | InsufficientRole

definition spec_order_protect :: "gate_check list" where
  "spec_order_protect = [MissingToken, BadToken, UserLookup, Inactive, Blocked]"

definition spec_order :: "gate_check list" where
  "spec_order = spec_order_protect @ [InsufficientRole]"

definition token_user :: "libs \<Rightarrow> user list \<Rightarrow> string option \<Rightarrow> user option" where
  "token_user L users authorization =
     (case verify L (bearer_token (the_header authorization)) of
        Inl e \<Rightarrow> None
      | Inr uid \<Rightarrow> findById_user users uid)"

definition check_fails :: "libs \<Rightarrow> string list \<Rightarrow> user list \<Rightarrow> string option \<Rightarrow> gate_check \<Rightarrow> bool" where
  "check_fails L roles users authorization c =
     (case c of
        MissingToken \<Rightarrow> \<not> has_bearer authorization
      | BadToken \<Rightarrow>
          (case verify L (bearer_token (the_header authorization)) of
             Inl e \<Rightarrow> True | Inr uid \<Rightarrow> False)
      | UserLookup \<Rightarrow> token_user L users authorization = None
      | Inactive \<Rightarrow>
          (case token_user L users authorization of
             None \<Rightarrow> False | Some u \<Rightarrow> statut u \<noteq> ''actif'')
      | Blocked \<Rightarrow>
          (case token_user L users authorization of
             None \<Rightarrow> False | Some u \<Rightarrow> compteBloque u)
      | InsufficientRole \<Rightarrow>
          (case token_user L users authorization of
             None \<Rightarrow> False | Some u \<Rightarrow> role u \<notin> set roles))"

definition check_reply :: "libs \<Rightarrow> string option \<Rightarrow> gate_check \<Rightarrow> 'd response" where
  "check_reply L authorization c =
     (case c of
        MissingToken \<Rightarrow> failure 401 TokenManquant
      | BadToken \<Rightarrow>
          (case verify L (bearer_token (the_header authorization)) of
             Inl JsonWebTokenError \<Rightarrow> failure 401 TokenInvalide
           | Inl TokenExpiredError \<Rightarrow> failure 401 TokenExpire
           | _ \<Rightarrow> failure 401 AccesNonAutorise)
      | UserLookup \<Rightarrow> failure 401 TokenUtilisateurNonTrouve
      | Inactive \<Rightarrow> failure 403 CompteInactif
      | Blocked \<Rightarrow> failure 423 CompteBloque
      | InsufficientRole \<Rightarrow> failure 403 RoleInsuffisant)"

text \<open>The users, the role of user \<open>i\<close> being \<open>r\<close>.\<close>

definition with_role :: "objectId \<Rightarrow> string \<Rightarrow> user list \<Rightarrow> user list" where
  "with_role i r users = map (\<lambda>u. if u_id u = i then u\<lparr>role := r\<rparr> else u) users"

subsection \<open>The unique indexes of the performance collection\<close>

text \<open>
  The key of the compound unique index, the number of records under a key, and the
  condition the two unique indexes (on \<^verbatim>\<open>_id\<close> and on the key) maintain. The empty
  collection satisfies it and every upsert preserves it (lemma \<open>upsert_step\<close>).
\<close>

definition period_key :: "performance \<Rightarrow> objectId \<times> int \<times> int" where
  "period_key p = (utilisateur p, annee p, mois p)"

definition key_count :: "objectId \<Rightarrow> int \<Rightarrow> int \<Rightarrow> performance list \<Rightarrow> nat" where
  "key_count uid y m store = length (filter (\<lambda>p. period_key p = (uid, y, m)) store)"

definition unique_indexes :: "performance list \<Rightarrow> bool" where
  "unique_indexes store = (distinct (map p_id store) \<and> distinct (map period_key store))"

text \<open>
  A sequence of upserts by one user, each with its date and body; the result is the
  statuses of the replies in order and the final store.
\<close>

fun upserts :: "objectId \<Rightarrow> (date \<times> perf_body) list \<Rightarrow> performance list \<Rightarrow> nat list \<times> performance list" where
  "upserts uid [] store = ([], store)"
| "upserts uid (call # calls) store =
     (case upsert (fst call) uid (snd call) store of
        (r, store') \<Rightarrow>
          (case upserts uid calls store' of
             (codes, store'') \<Rightarrow> (status r # codes, store'')))"

text \<open>
  The statuses of a sequence of upserts for one key, read in order: 201 (created) is
  answered only while no record exists for the key, 200 (updated) only once one exists,
  and after either one exists. \<open>ex\<close> says whether a record exists at the start.
\<close>

fun create_then_update :: "bool \<Rightarrow> nat list \<Rightarrow> bool" where
  "create_then_update ex [] = True"
| "create_then_update ex (c # cs) =
     (if c = 201 then \<not> ex \<and> create_then_update True cs
      else if c = 200 then ex \<and> create_then_update True cs
      else create_then_update ex cs)"

text \<open>
  What a write stores. After a write with the body \<open>b\<close> by the user \<open>uid\<close> the record
  holds the caller and the values of the body in every field the body names
  (\<open>holds_body\<close>). The fields the body does not name are those of the record it replaces
  after an update, its \<^verbatim>\<open>_id\<close> and validation date included (\<open>keeps_unnamed\<close>), and
  the defaults of the schema after a creation (\<open>schema_defaults\<close>).
\<close>

definition holds_body :: "objectId \<Rightarrow> perf_body \<Rightarrow> performance \<Rightarrow> bool" where
  "holds_body uid b p =
     (utilisateur p = uid \<and> annee p = b_annee b \<and> mois p = b_mois b \<and>
      chiffreAffaires p = b_chiffreAffaires b \<and> objectifCA p = b_objectifCA b \<and>
      nouveauxClients p = b_nouveauxClients b \<and> rdvRealises p = b_rdvRealises b \<and>
      ventesRealisees p = b_ventesRealisees b \<and> dossiersMAJ p = b_dossiersMAJ b \<and>
      totalDossiers p = b_totalDossiers b \<and>
      (case b_rdvPlanifies b of None \<Rightarrow> True | Some x \<Rightarrow> rdvPlanifies p = x) \<and>
      (case b_evenements b of None \<Rightarrow> True | Some x \<Rightarrow> evenements p = x) \<and>
      (case b_satisfaction b of None \<Rightarrow> True | Some x \<Rightarrow> satisfaction p = x) \<and>
      (case b_commentaires b of None \<Rightarrow> True | Some c \<Rightarrow> commentaires p = Some c) \<and>
      (case b_statut b of None \<Rightarrow> True | Some x \<Rightarrow> p_statut p = x))"

definition keeps_unnamed :: "perf_body \<Rightarrow> performance \<Rightarrow> performance \<Rightarrow> bool" where
  "keeps_unnamed b e p =
     (p_id p = p_id e \<and> dateValidation p = dateValidation e \<and>
      (case b_rdvPlanifies b of None \<Rightarrow> rdvPlanifies p = rdvPlanifies e | Some x \<Rightarrow> True) \<and>
      (case b_evenements b of None \<Rightarrow> evenements p = evenements e | Some x \<Rightarrow> True) \<and>
      (case b_satisfaction b of None \<Rightarrow> satisfaction p = satisfaction e | Some x \<Rightarrow> True) \<and>
      (case b_commentaires b of None \<Rightarrow> commentaires p = commentaires e | Some c \<Rightarrow> True) \<and>
      (case b_statut b of None \<Rightarrow> p_statut p = p_statut e | Some x \<Rightarrow> True))"

definition schema_defaults :: "date \<Rightarrow> perf_body \<Rightarrow> performance \<Rightarrow> bool" where
  "schema_defaults now b p =
     (dateValidation p = now \<and>
      (case b_rdvPlanifies b of None \<Rightarrow> rdvPlanifies p = 0 | Some x \<Rightarrow> True) \<and>
      (case b_evenements b of None \<Rightarrow> evenements p = 0 | Some x \<Rightarrow> True) \<and>
      (case b_satisfaction b of None \<Rightarrow> satisfaction p = 4 | Some x \<Rightarrow> True) \<and>
      (case b_commentaires b of None \<Rightarrow> commentaires p = None | Some c \<Rightarrow> True) \<and>
      (case b_statut b of None \<Rightarrow> p_statut p = ''valide'' | Some x \<Rightarrow> True))"

text \<open>
  The effect of one upsert that took the store \<open>s\<close> to \<open>s'\<close> with the reply \<open>r\<close>. A
  creation found no record under the key and appended the record of the reply, under a new
  \<^verbatim>\<open>_id\<close>. An update found the record \<open>e\<close> under the key and put the record of the
  reply in its place, every other record staying where and as it was.
\<close>

definition created ::
  "date \<Rightarrow> objectId \<Rightarrow> perf_body \<Rightarrow> performance list \<Rightarrow> performance response \<Rightarrow>
     performance list \<Rightarrow> bool" where
  "created now uid b s r s' =
     (findOne_period s uid (b_annee b) (b_mois b) = None \<and>
      (case data r of
         None \<Rightarrow> False
       | Some p \<Rightarrow>
           s' = s @ [p] \<and> p_id p \<notin> set (map p_id s) \<and> holds_body uid b p \<and>
           schema_defaults now b p))"

definition updated_in_place ::
  "objectId \<Rightarrow> perf_body \<Rightarrow> performance list \<Rightarrow> performance response \<Rightarrow>
     performance list \<Rightarrow> bool" where
  "updated_in_place uid b s r s' =
     (case (findOne_period s uid (b_annee b) (b_mois b), data r) of
        (Some e, Some p) \<Rightarrow>
          s' = map (\<lambda>q. if p_id q = p_id e then p else q) s \<and> holds_body uid b p \<and>
          keeps_unnamed b e p
      | _ \<Rightarrow> False)"

text \<open>
  A body no check rejects: it passes the validation chain of the route, the validators of
  the schema's paths and the coherence check of the pre-save hook.
\<close>

definition accepted_body :: "perf_body \<Rightarrow> bool" where
  "accepted_body b =
     (body_valid b \<and> update_valid b \<and> schema_valid (new_performance 0 0 0 b) \<and>
      pre_save (new_performance 0 0 0 b))"

section \<open>Auxiliary facts\<close>

lemma round_even_error: "\<bar>of_int (round_even s) - s\<bar> \<le> 1 / 2"
proof -
  have "of_int \<lfloor>s\<rfloor> \<le> s" "s < of_int \<lfloor>s\<rfloor> + 1"
    by linarith+
  then show ?thesis
    by (auto simp: round_even_def Let_def)
qed

lemma binade_le:
  assumes "0 < x"
  shows "2 powi (binade x) \<le> x"
proof -
  obtain p q where pq: "quotient_of x = (p, q)" by force
  have q: "0 < q" using pq by (rule quotient_of_denom_pos)
  have x: "x = of_int p / of_int q" using pq by (rule quotient_of_div)
  have p: "0 < p" using assms q x by (simp add: zero_less_divide_iff)
  let ?d = "bitlen p - bitlen q"
  show ?thesis
  proof (cases "2 powi ?d \<le> x")
    case True
    then show ?thesis by (simp add: binade_def pq)
  next
    case False
    have "2 ^ nat (bitlen p - 1) \<le> p" "q < 2 ^ nat (bitlen q)"
      using bitlen_bounds [OF p] bitlen_bounds [OF q] by simp_all
    then have 1: "(2::rat) ^ nat (bitlen p - 1) \<le> of_int p"
      "of_int q \<le> (2::rat) ^ nat (bitlen q)"
      by (metis of_int_le_iff of_int_numeral of_int_power,
          metis less_imp_le of_int_le_iff of_int_numeral of_int_power)
    have bp: "1 \<le> bitlen p"
      using p bitlen_eq_zero_iff [of p] bitlen_nonneg [of p] by linarith
    have "(2::rat) powi (?d - 1) = 2 powi (bitlen p - 1) / 2 powi (bitlen q)"
      by (simp add: power_int_diff)
    also have "\<dots> = 2 ^ nat (bitlen p - 1) / 2 ^ nat (bitlen q)"
      using bp bitlen_nonneg [of q] by (simp add: power_int_def)
    also have "\<dots> \<le> of_int p / of_int q"
      using 1 q p by (intro frac_le) auto
    also have "\<dots> = x"
      by (simp only: x)
    finally have "2 powi (?d - 1) \<le> x" .
    moreover have "binade x = ?d - 1"
      using False by (simp add: binade_def pq)
    ultimately show ?thesis
      by (simp only:)
  qed
qed


lemma binade_gt:
  assumes "0 < x"
  shows "x < 2 powi (binade x + 1)"
proof -
  obtain p q where pq: "quotient_of x = (p, q)" by force
  have q: "0 < q" using pq by (rule quotient_of_denom_pos)
  have x: "x = of_int p / of_int q" using pq by (rule quotient_of_div)
  have p: "0 < p" using assms q x by (simp add: zero_less_divide_iff)
  let ?d = "bitlen p - bitlen q"
  have "p < 2 ^ nat (bitlen p)" "2 ^ nat (bitlen q - 1) \<le> q"
    using bitlen_bounds [OF p] bitlen_bounds [OF q] by simp_all
  then have 1: "of_int p < (2::rat) ^ nat (bitlen p)"
    "(2::rat) ^ nat (bitlen q - 1) \<le> of_int q"
    by (metis of_int_less_iff of_int_numeral of_int_power,
        metis of_int_le_iff of_int_numeral of_int_power)
  have bq: "1 \<le> bitlen q"
    using q bitlen_eq_zero_iff [of q] bitlen_nonneg [of q] by linarith
  have "x = of_int p / of_int q"
    by (simp only: x)
  also have "\<dots> < 2 ^ nat (bitlen p) / 2 ^ nat (bitlen q - 1)"
    using 1 q p by (intro frac_less) auto
  also have "\<dots> = 2 powi (bitlen p) / 2 powi (bitlen q - 1)"
    using bq bitlen_nonneg [of p] by (simp add: power_int_def)
  also have "\<dots> = (2::rat) powi (?d + 1)"
    by (simp add: power_int_diff power_int_add)
  finally have lt: "x < 2 powi (?d + 1)" .
  show ?thesis
  proof (cases "2 powi ?d \<le> x")
    case True
    then have "binade x = ?d" by (simp add: binade_def pq)
    then show ?thesis using lt by (simp only:)
  next
    case False
    then have "binade x = ?d - 1" by (simp add: binade_def pq)
    then have "binade x + 1 = ?d" by simp
    moreover have "x < 2 powi ?d" using False by simp
    ultimately show ?thesis by (simp only:)
  qed
qed

lemma powi_less_exp: "(2::rat) powi a < 2 powi b \<Longrightarrow> a < b"
  using power_int_increasing [of b a "2::rat"] by (cases "a < b") auto

lemma binade_ge:
  assumes "2 powi e \<le> x"
  shows "e \<le> binade x"
proof -
  have "(0::rat) < 2 powi e" by simp
  then have x: "0 < x" using assms by linarith
  have "2 powi e < (2::rat) powi (binade x + 1)"
    using assms binade_gt [OF x] by linarith
  then show ?thesis
    using powi_less_exp by fastforce
qed

lemma binade_less:
  assumes "0 < x" and "x < 2 powi e"
  shows "binade x < e"
proof -
  have "(2::rat) powi (binade x) < 2 powi e"
    using assms binade_le [OF assms(1)] by linarith
  then show ?thesis
    by (rule powi_less_exp)
qed

text \<open>The relative error of one rounding in the normal range is at most \<open>2 powi (- 53)\<close>.\<close>

lemma round_double_error:
  assumes "x = 0 \<or> 2 powi (- 1022) \<le> \<bar>x\<bar>"
  shows "\<bar>round_double x - x\<bar> \<le> \<bar>x\<bar> / 2 ^ 53"
proof (cases "x = 0")
  case True
  then show ?thesis by (simp add: round_double_def)
next
  case False
  define e where "e = binade \<bar>x\<bar>"
  define u where "u = (2::rat) powi (e - 52)"
  define m where "m = (of_int (round_even (\<bar>x\<bar> / u)) :: rat)"
  have "- 1022 \<le> e"
    using assms False binade_ge [of "- 1022" "\<bar>x\<bar>"] by (simp add: e_def)
  then have qu: "quantum x = u"
    by (simp add: quantum_def u_def e_def max_def)
  have u: "0 < u" by (simp add: u_def)
  have d: "round_double x = sgn x * m * u"
    using False by (simp add: round_double_def qu m_def)
  have "\<bar>round_double x - x\<bar> = \<bar>m * u - \<bar>x\<bar>\<bar>"
  proof (cases "0 < x")
    case True
    then show ?thesis unfolding d by simp
  next
    case neg: False
    then have "round_double x - x = - (m * u - \<bar>x\<bar>)"
      using False unfolding d by (simp add: sgn_if)
    then show ?thesis by (simp only: abs_minus_cancel)
  qed
  also have "\<dots> = \<bar>m - \<bar>x\<bar> / u\<bar> * u"
  proof -
    have "m * u - \<bar>x\<bar> = (m - \<bar>x\<bar> / u) * u"
      using u by (simp add: field_simps)
    then show ?thesis
      using u by (simp add: abs_mult)
  qed
  also have "\<dots> \<le> 1 / 2 * u"
    using round_even_error [of "\<bar>x\<bar> / u"] u unfolding m_def by (intro mult_right_mono) auto
  also have "\<dots> = 2 powi e / 2 ^ 53"
    by (simp add: u_def power_int_diff)
  also have "\<dots> \<le> \<bar>x\<bar> / 2 ^ 53"
    using binade_le [of "\<bar>x\<bar>"] False unfolding e_def by (intro divide_right_mono) auto
  finally show ?thesis .
qed

lemma binade_0: "binade 0 = - 2"
  by code_simp

lemma to_double_Finite:
  assumes "\<bar>round_double x\<bar> < 2 ^ 1024"
  shows "to_double x = Finite (round_double x)"
proof (cases "round_double x = 0")
  case True
  then show ?thesis by (simp add: to_double_def binade_0)
next
  case False
  have "\<bar>round_double x\<bar> < 2 powi 1024"
    using assms by simp
  then have "binade \<bar>round_double x\<bar> < 1024"
    using False by (intro binade_less) auto
  then show ?thesis
    by (simp add: to_double_def)
qed

lemma to_double_overflow:
  assumes "2 ^ 1024 \<le> round_double x"
  shows "to_double x = PosInfinity"
proof -
  have "2 powi 1024 \<le> \<bar>round_double x\<bar>"
    using assms by simp
  then have "1024 \<le> binade \<bar>round_double x\<bar>"
    by (rule binade_ge)
  moreover have "0 < round_double x"
    using assms by (smt (verit) zero_less_power zero_less_numeral less_le_trans)
  ultimately show ?thesis
    by (simp add: to_double_def)
qed


text \<open>
  The percentage the code computes before \<^verbatim>\<open>Math.round\<close> carries the error of two
  roundings; the rounded percentage is therefore an integer nearest to the exact percentage
  up to that error, and it is the rate of the specification unless the exact percentage is
  within that error of a tie.
\<close>

lemma Math_round_nearest: "\<bar>of_int \<lfloor>x + 1 / 2\<rfloor> - x\<bar> \<le> (1 / 2 :: rat)"
proof -
  have "\<lfloor>x + 1 / 2\<rfloor> = round x" by (simp add: round_def)
  then show ?thesis using of_int_round_abs_le [of x] by simp
qed

lemma js_product_error:
  assumes "0 \<le> num" and "0 < den"
    and "num = 0 \<or> (2 powi (- 1022) \<le> num / den \<and> 100 * num / den \<le> 2 ^ 1023)"
  shows "\<exists>y. js_mul (js_div num den) 100 = Finite y \<and>
           \<bar>y - 100 * num / den\<bar> \<le> (100 * num / den) / 2 ^ 51"
proof (cases "num = 0")
  case True
  have "to_double 0 = Finite 0"
    by (simp add: to_double_def round_double_def binade_0)
  then show ?thesis
    using True assms(2) by (simp add: js_div_def)
next
  case False
  define x where "x = num / den"
  define q where "q = round_double x"
  define y where "y = round_double (q * 100)"
  define t where "t = x / 2 ^ 53"
  define M where "M = (2::rat) ^ 1023"
  define m where "m = (2::rat) powi (- 1022)"
  have M: "(2::rat) ^ 1024 = 2 * M"
    by (simp add: M_def)
  have m0: "0 < m"
    by (simp add: m_def)
  have r: "m \<le> x" "100 * x \<le> M"
    using assms(3) False by (simp_all add: x_def m_def M_def)
  have x0: "0 < x"
    using r(1) m0 by linarith
  have t0: "0 \<le> t"
    using x0 by (simp add: t_def)
  have shrink: "z / 2 ^ 53 \<le> z / 4" if "0 \<le> z" for z :: rat
    using that by (intro divide_left_mono) auto
  have a: "\<bar>q - x\<bar> \<le> t"
    using round_double_error [of x] x0 r(1) by (simp add: q_def t_def m_def)
  have tx: "t \<le> x / 4"
    using shrink [of x] x0 by (simp add: t_def)
  have q0: "0 < q" and qlo: "3 * x \<le> 4 * q" and qhi: "4 * q \<le> 5 * x"
    using a tx x0 by linarith+
  have "\<bar>q\<bar> < 2 * M"
    using q0 qhi r(2) x0 by linarith
  then have d: "to_double x = Finite q"
    unfolding q_def M [symmetric] by (rule to_double_Finite)
  have "m \<le> q * 100"
    using qlo r(1) m0 by linarith
  then have b: "\<bar>y - q * 100\<bar> \<le> 100 * (q / 2 ^ 53)"
    using round_double_error [of "q * 100"] q0 by (simp add: y_def m_def)
  have s4: "q / 2 ^ 53 \<le> q / 4"
    using shrink [of q] q0 by simp
  have "\<bar>y\<bar> < 2 * M"
    using b s4 q0 qhi r(2) x0 by linarith
  then have p: "to_double (q * 100) = Finite y"
    unfolding y_def M [symmetric] by (rule to_double_Finite)
  have "q / 2 ^ 53 \<le> (x + t) / 2 ^ 53"
    using a by (intro divide_right_mono) auto
  also have "\<dots> = t + t / 2 ^ 53"
    by (simp add: t_def add_divide_distrib)
  also have "\<dots> \<le> t + t"
    using shrink [OF t0] t0 by linarith
  finally have s: "q / 2 ^ 53 \<le> 2 * t"
    by simp
  have e: "(100 * x) / 2 ^ 51 = 400 * t"
    by (simp add: t_def)
  have "\<bar>y - 100 * x\<bar> \<le> 400 * t"
    using a b s t0 by linarith
  then have "\<bar>y - 100 * num / den\<bar> \<le> (100 * num / den) / 2 ^ 51"
    unfolding e [symmetric] by (simp add: x_def)
  moreover have "js_mul (js_div num den) 100 = Finite y"
    using assms(2) d p by (simp add: js_div_def x_def)
  ultimately show ?thesis
    by blast
qed

lemma js_percent_near:
  assumes "0 \<le> num" and "0 < den"
    and "num = 0 \<or> (2 powi (- 1022) \<le> num / den \<and> 100 * num / den \<le> 2 ^ 1023)"
  shows "\<exists>n. js_percent num den = Finite (of_int n) \<and>
           \<bar>of_int n - 100 * num / den\<bar> \<le> 1 / 2 + (100 * num / den) / 2 ^ 51"
proof -
  obtain y where y: "js_mul (js_div num den) 100 = Finite y"
    "\<bar>y - 100 * num / den\<bar> \<le> (100 * num / den) / 2 ^ 51"
    using js_product_error [OF assms] by blast
  have "js_percent num den = Finite (of_int \<lfloor>y + 1 / 2\<rfloor>)"
    by (simp add: js_percent_def y(1))
  moreover have "\<bar>of_int \<lfloor>y + 1 / 2\<rfloor> - 100 * num / den\<bar> \<le> 1 / 2 + (100 * num / den) / 2 ^ 51"
    using y(2) Math_round_nearest [of y] by linarith
  ultimately show ?thesis
    by blast
qed

lemma js_percent_exact:
  assumes "0 \<le> num" and "0 < den"
    and "num = 0 \<or> (2 powi (- 1022) \<le> num / den \<and> 100 * num / den \<le> 2 ^ 1023)"
    and "(100 * num / den) / 2 ^ 51 < \<bar>frac (100 * num / den) - 1 / 2\<bar>"
  shows "js_percent num den = Finite (of_int (spec_rate num den))"
proof -
  define X where "X = 100 * num / den"
  obtain y where y: "js_mul (js_div num den) 100 = Finite y"
    "\<bar>y - 100 * num / den\<bar> \<le> (100 * num / den) / 2 ^ 51"
    using js_product_error [OF assms(1-3)] by blast
  define d where "d = X / 2 ^ 51"
  define n where "n = \<lfloor>X\<rfloor>"
  define f where "f = X - of_int n"
  have e: "\<bar>y - X\<bar> \<le> d"
    using y(2) by (simp add: X_def d_def)
  have f: "0 \<le> f" "f < 1"
    unfolding f_def n_def by linarith+
  have t: "d < \<bar>f - 1 / 2\<bar>"
    using assms(4) by (simp add: X_def d_def f_def n_def frac_def)
  have X: "X = of_int n + f"
    by (simp add: f_def)
  have "\<lfloor>y + 1 / 2\<rfloor> = \<lfloor>X + 1 / 2\<rfloor>"
  proof (cases "f < 1 / 2")
    case True
    have "\<lfloor>X + 1 / 2\<rfloor> = n"
      using True f unfolding X by (intro floor_unique) auto
    moreover have "\<lfloor>y + 1 / 2\<rfloor> = n"
      using True f t e unfolding X by (intro floor_unique) linarith+
    ultimately show ?thesis by simp
  next
    case False
    have "\<lfloor>X + 1 / 2\<rfloor> = n + 1"
      using False f unfolding X by (intro floor_unique) auto
    moreover have "\<lfloor>y + 1 / 2\<rfloor> = n + 1"
      using False f t e unfolding X by (intro floor_unique) (simp; linarith)+
    ultimately show ?thesis by simp
  qed
  then show ?thesis
    using assms(2)
    by (simp add: js_percent_def spec_rate_def round_def y(1) X_def)
qed


text \<open>Beyond the range of the doubles the percentage is an infinity.\<close>

lemma to_double_large:
  assumes "3 * 2 ^ 1023 \<le> x"
  shows "to_double x = PosInfinity"
proof -
  define M where "M = (2::rat) ^ 1023"
  have M: "(2::rat) ^ 1024 = 2 * M" "0 < M" "1 \<le> M"
    by (simp_all add: M_def)
  have x: "3 * M \<le> x"
    using assms by (simp add: M_def)
  have "(2::rat) powi (- 1022) \<le> 1"
    by (simp add: power_int_minus inverse_le_1_iff)
  then have "2 powi (- 1022) \<le> \<bar>x\<bar>"
    using x M(3) by linarith
  then have "\<bar>round_double x - x\<bar> \<le> \<bar>x\<bar> / 2 ^ 53"
    by (intro round_double_error) simp
  moreover have "\<bar>x\<bar> / 2 ^ 53 \<le> \<bar>x\<bar> / 4"
    by (intro divide_left_mono) auto
  ultimately have "2 * M \<le> round_double x"
    using x M(2) by linarith
  then show ?thesis
    unfolding M(1) [symmetric] by (rule to_double_overflow)
qed

lemma to_double_cases:
  assumes "0 < x"
  shows "to_double x = PosInfinity \<or> to_double x = Finite (round_double x)"
proof -
  have "0 \<le> round_even (x / quantum x)"
    using assms by (auto simp: round_even_def Let_def quantum_def intro!: divide_nonneg_pos)
  then have "0 \<le> round_double x"
    using assms by (simp add: round_double_def quantum_def)
  then show ?thesis
    by (auto simp: to_double_def Let_def binade_0)
qed

lemma js_percent_overflow:
  assumes "0 < den" and "2 ^ 1025 \<le> 100 * num / den"
  shows "js_percent num den = PosInfinity"
proof -
  define x where "x = num / den"
  define M where "M = (2::rat) ^ 1023"
  have M: "(2::rat) ^ 1025 = 4 * M" "0 < M" "25 \<le> M"
    by (simp_all add: M_def)
  have x: "4 * M \<le> 100 * x"
    using assms(2) by (simp add: x_def M_def)
  then have x0: "0 < x"
    using M(2) by linarith
  have d: "js_div num den = to_double x"
    using assms(1) by (simp add: js_div_def x_def)
  consider "to_double x = PosInfinity" | "to_double x = Finite (round_double x)"
    using to_double_cases [OF x0] by blast
  then have "js_mul (js_div num den) 100 = PosInfinity"
  proof cases
    case 1
    then show ?thesis by (simp add: d)
  next
    case 2
    have "(2::rat) powi (- 1022) \<le> 1"
      by (simp add: power_int_minus inverse_le_1_iff)
    then have "2 powi (- 1022) \<le> \<bar>x\<bar>"
      using x M(3) by linarith
    then have "\<bar>round_double x - x\<bar> \<le> \<bar>x\<bar> / 2 ^ 53"
      by (intro round_double_error) simp
    moreover have "\<bar>x\<bar> / 2 ^ 53 \<le> \<bar>x\<bar> / 4"
      by (intro divide_left_mono) auto
    ultimately have "3 * M \<le> round_double x * 100"
      using x M(2) by linarith
    then have "to_double (round_double x * 100) = PosInfinity"
      unfolding M_def by (rule to_double_large)
    then show ?thesis
      by (simp add: d 2)
  qed
  then show ?thesis
    by (simp add: js_percent_def)
qed

lemma virtuals_js_percent:
  "tauxTransformation p =
     (if rdvRealises p = 0 then Finite 0
      else js_percent (of_int (ventesRealisees p)) (of_int (rdvRealises p))) \<and>
   completudeDossiers p =
     (if totalDossiers p = 0 then Finite 0
      else js_percent (of_int (dossiersMAJ p)) (of_int (totalDossiers p))) \<and>
   tauxObjectif p =
     (if objectifCA p = 0 then Finite 0 else js_percent (chiffreAffaires p) (objectifCA p))"
  by (simp add: tauxTransformation_def completudeDossiers_def tauxObjectif_def js_percent_def)

lemma with_rates_js_percent:
  "(0 \<le> totalRDV g \<longrightarrow>
      s_tauxTransformation (with_rates g) =
        (if totalRDV g = 0 then Finite 0
         else js_percent (of_int (totalVentes g)) (of_int (totalRDV g)))) \<and>
   (0 \<le> totalObjectif g \<longrightarrow>
      s_tauxObjectif (with_rates g) =
        (if totalObjectif g = 0 then Finite 0 else js_percent (totalCA g) (totalObjectif g)))"
  by (simp add: with_rates_def js_percent_def)

text \<open>
  The filter of the summary compares the stored owner with a string, so no record passes
  it, and the summary of every store is the summary of no record.
\<close>

lemma matchFilter_IdString: "\<not> matchFilter (IdString uid) y m p"
  by (simp add: matchFilter_def)

lemma summary_matches_no_record:
  "summary L year_now uid q_annee q_mois store = Response 200 True None (Some zero_stats)"
proof -
  have "filter (matchFilter (IdString uid) (filter_annee L year_now q_annee) (filter_mois L q_mois))
          store = []"
    by (simp add: filter_empty_conv matchFilter_IdString)
  then show ?thesis
    by (simp add: summary_def aggregate_def group_stage_def zero_stats_def with_rates_def)
qed

lemma summary_with_rates:
  "\<exists>g. summary L year_now uid q_annee q_mois store = Response 200 True None (Some (with_rates g))"
  unfolding summary_def Let_def by (rule exI) (rule refl)

section \<open>The summary of an empty selection\<close>

text \<open>
  C7. For every user, year and optional month of the query: when no record of the store
  passes the filter of the summary (the filter the route builds from the caller's
  identifier, the year, the month when the query names one, and the status ``valide''),
  the route answers 200 with a result whose totals, count, average satisfaction and two
  rates are all zero. The model of the route has no failing branch, so it answers no error.
\<close>

theorem summary_empty_is_all_zero:
  assumes "\<forall>p \<in> set store.
             \<not> matchFilter (IdString uid) (filter_annee L year_now q_annee) (filter_mois L q_mois) p"
  shows "summary L year_now uid q_annee q_mois store = Response 200 True None (Some zero_stats)"
proof -
  have "filter (matchFilter (IdString uid) (filter_annee L year_now q_annee) (filter_mois L q_mois))
          store = []"
    using assms by (simp add: filter_empty_conv)
  then show ?thesis
    by (simp add: summary_def aggregate_def group_stage_def zero_stats_def with_rates_def)
qed

theorem summary_empty_is_all_zero_witness:
  "\<not> matchFilter (IdString 1) (filter_annee sample_libs 2026 (Some ''2024''))
       (filter_mois sample_libs (Some ''3'')) (perf_mars\<lparr>p_statut := ''brouillon''\<rparr>) \<and>
   summary sample_libs 2026 1 (Some ''2024'') (Some ''3'') [perf_mars\<lparr>p_statut := ''brouillon''\<rparr>] =
     Response 200 True None (Some zero_stats) \<and>
   summary sample_libs 2026 1 (Some ''2024'') (Some ''3'') [] = Response 200 True None (Some zero_stats)"
  using summary_empty_is_all_zero [of "[perf_mars\<lparr>p_statut := ''brouillon''\<rparr>]" 1 sample_libs 2026
      "Some ''2024''" "Some ''3''"]
    summary_empty_is_all_zero [of "[]" 1 sample_libs 2026 "Some ''2024''" "Some ''3''"]
  by (simp add: matchFilter_def)

section \<open>The derived rates\<close>

text \<open>
  C8, as stated, fails at a tie. For 23 sales over 40 appointments the exact percentage is
  57.5 and the rate of the specification is 58; but 23/40 is not a double, the quotient the
  code computes is the double just below it, the product with 100 is a double below 57.5,
  and the virtual is 57.
\<close>

theorem conversion_rate_tie_counterexample:
  "ventesRealisees (perf_mars\<lparr>ventesRealisees := 23\<rparr>) = 23 \<and>
   rdvRealises (perf_mars\<lparr>ventesRealisees := 23\<rparr>) = 40 \<and>
   js_div 23 40 = Finite (2589569785738035 / 4503599627370496) \<and>
   js_mul (js_div 23 40) 100 = Finite (8092405580431359 / 140737488355328) \<and>
   tauxTransformation (perf_mars\<lparr>ventesRealisees := 23\<rparr>) = Finite 57 \<and>
   spec_rate 23 40 = 58"
  by code_simp

text \<open>
  C8, amended. For every performance record each of the three virtuals is 0 for a zero
  denominator and otherwise \<^verbatim>\<open>Math.round\<close> of the double product (num / den) * 100.
  For a non-negative numerator and a positive denominator whose quotient is 0 or at least
  the least normal double \<open>2 powi (- 1022)\<close> and whose exact percentage is at most
  \<open>2 ^ 1023\<close>, the result is an integer within 1/2 plus the rounding error (the exact
  percentage over \<open>2 ^ 51\<close>) of the exact percentage, and it is the rate of the
  specification, \<open>round (100 * num / den)\<close>, unless the exact percentage is within the
  rounding error of a tie. For an exact percentage of \<open>2 ^ 1025\<close> or more the result is
  \<^verbatim>\<open>Infinity\<close>. Appointments 40 and sales 20 give 50; revenue 90000 and target 100000
  give 90. The two rates the summary adds to the totals of its aggregation are the same
  expression of the totals, zero-guarded, for totals that are not negative.
\<close>

theorem derived_rates_nearest_integer:
  "tauxTransformation p =
     (if rdvRealises p = 0 then Finite 0
      else js_percent (of_int (ventesRealisees p)) (of_int (rdvRealises p))) \<and>
   completudeDossiers p =
     (if totalDossiers p = 0 then Finite 0
      else js_percent (of_int (dossiersMAJ p)) (of_int (totalDossiers p))) \<and>
   tauxObjectif p =
     (if objectifCA p = 0 then Finite 0 else js_percent (chiffreAffaires p) (objectifCA p)) \<and>
   (0 \<le> num \<and> 0 < den \<and> normal_range num den \<longrightarrow>
      (\<exists>n. js_percent num den = Finite (of_int n) \<and>
         \<bar>of_int n - 100 * num / den\<bar> \<le> 1 / 2 + (100 * num / den) / 2 ^ 51)) \<and>
   (0 \<le> num \<and> 0 < den \<and> normal_range num den \<and>
    (100 * num / den) / 2 ^ 51 < \<bar>frac (100 * num / den) - 1 / 2\<bar> \<longrightarrow>
      js_percent num den = Finite (of_int (spec_rate num den))) \<and>
   (0 < den \<and> 2 ^ 1025 \<le> 100 * num / den \<longrightarrow> js_percent num den = PosInfinity) \<and>
   (rdvRealises p = 40 \<and> ventesRealisees p = 20 \<longrightarrow> tauxTransformation p = Finite 50) \<and>
   (chiffreAffaires p = 90000 \<and> objectifCA p = 100000 \<longrightarrow> tauxObjectif p = Finite 90) \<and>
   (0 \<le> totalRDV g \<longrightarrow>
      s_tauxTransformation (with_rates g) =
        (if totalRDV g = 0 then Finite 0
         else js_percent (of_int (totalVentes g)) (of_int (totalRDV g)))) \<and>
   (0 \<le> totalObjectif g \<longrightarrow>
      s_tauxObjectif (with_rates g) =
        (if totalObjectif g = 0 then Finite 0 else js_percent (totalCA g) (totalObjectif g))) \<and>
   (\<exists>g'. summary L year_now uid q_annee q_mois store =
            Response 200 True None (Some (with_rates g')))"
proof -
  have e1: "js_percent 20 40 = Finite 50" and e2: "js_percent 90000 100000 = Finite 90"
    by code_simp+
  have 1: "rdvRealises p = 40 \<and> ventesRealisees p = 20 \<longrightarrow> tauxTransformation p = Finite 50"
    using e1 by (simp add: tauxTransformation_def js_percent_def)
  have 2: "chiffreAffaires p = 90000 \<and> objectifCA p = 100000 \<longrightarrow> tauxObjectif p = Finite 90"
    using e2 by (simp add: tauxObjectif_def js_percent_def)
  have 3: "0 \<le> num \<and> 0 < den \<and> normal_range num den \<longrightarrow>
      (\<exists>n. js_percent num den = Finite (of_int n) \<and>
         \<bar>of_int n - 100 * num / den\<bar> \<le> 1 / 2 + (100 * num / den) / 2 ^ 51)"
    using js_percent_near [of num den] unfolding normal_range_def by blast
  have 4: "0 \<le> num \<and> 0 < den \<and> normal_range num den \<and>
      (100 * num / den) / 2 ^ 51 < \<bar>frac (100 * num / den) - 1 / 2\<bar> \<longrightarrow>
      js_percent num den = Finite (of_int (spec_rate num den))"
    using js_percent_exact [of num den] unfolding normal_range_def by blast
  have 5: "0 < den \<and> 2 ^ 1025 \<le> 100 * num / den \<longrightarrow> js_percent num den = PosInfinity"
    using js_percent_overflow [of den num] by blast
  show ?thesis
    using virtuals_js_percent [of p] 1 2 3 4 5 with_rates_js_percent [of g]
      summary_with_rates [of L year_now uid q_annee q_mois store]
    by blast
qed

theorem derived_rates_nearest_integer_witness:
  "rdvRealises perf_mars = 40 \<and> ventesRealisees perf_mars = 20 \<and>
   tauxTransformation perf_mars = Finite 50 \<and>
   chiffreAffaires perf_mars = 90000 \<and> objectifCA perf_mars = 100000 \<and>
   tauxObjectif perf_mars = Finite 90 \<and>
   (0::rat) \<le> 20 \<and> (0::rat) < 40 \<and> normal_range 20 40 \<and>
   (100 * 20 / 40) / 2 ^ 51 < \<bar>frac (100 * 20 / 40 :: rat) - 1 / 2\<bar> \<and>
   js_percent 20 40 = Finite (of_int (spec_rate 20 40)) \<and> spec_rate 20 40 = 50 \<and>
   (0::rat) < 1 \<and> (2::rat) ^ 1025 \<le> 100 * 10 ^ 307 / 1 \<and>
   js_percent (10 ^ 307) 1 = PosInfinity \<and>
   0 \<le> totalRDV totaux_mars \<and> 0 \<le> totalObjectif totaux_mars \<and>
   s_tauxTransformation (with_rates totaux_mars) = js_percent 20 40 \<and>
   s_tauxObjectif (with_rates totaux_mars) = js_percent 90000 100000"
proof -
  note t = derived_rates_nearest_integer [where p = perf_mars and num = 20 and den = 40
      and g = totaux_mars]
  note o = derived_rates_nearest_integer [where num = "10 ^ 307" and den = 1]
  have f: "rdvRealises perf_mars = 40 \<and> ventesRealisees perf_mars = 20"
    "chiffreAffaires perf_mars = 90000 \<and> objectifCA perf_mars = 100000"
    by (simp_all add: perf_mars_def new_performance_def body_mars_def)
  have n: "normal_range 20 40"
    by (simp add: normal_range_def power_int_minus)
  have h: "(0::rat) \<le> 20 \<and> (0::rat) < 40 \<and>
      (100 * 20 / 40) / 2 ^ 51 < \<bar>frac (100 * 20 / 40 :: rat) - 1 / 2\<bar>"
    by code_simp
  have s: "spec_rate 20 40 = 50"
    by code_simp
  have v: "(0::rat) < 1 \<and> (2::rat) ^ 1025 \<le> 100 * 10 ^ 307 / 1"
    by simp
  have g: "0 \<le> totalRDV totaux_mars" "0 \<le> totalObjectif totaux_mars"
    "totalRDV totaux_mars = 40" "totalVentes totaux_mars = 20"
    "totalCA totaux_mars = 90000" "totalObjectif totaux_mars = 100000"
    by (simp_all add: totaux_mars_def)
  from t f(1) have 1: "tauxTransformation perf_mars = Finite 50"
    by blast
  from t f(2) have 2: "tauxObjectif perf_mars = Finite 90"
    by blast
  from t h n have 3: "js_percent 20 40 = Finite (of_int (spec_rate 20 40))"
    by blast
  from o v have 4: "js_percent (10 ^ 307) 1 = PosInfinity"
    by blast
  from t g(1) have "s_tauxTransformation (with_rates totaux_mars) =
      (if totalRDV totaux_mars = 0 then Finite 0
       else js_percent (of_int (totalVentes totaux_mars)) (of_int (totalRDV totaux_mars)))"
    by blast
  then have 5: "s_tauxTransformation (with_rates totaux_mars) = js_percent 20 40"
    by (simp add: g)
  from t g(2) have "s_tauxObjectif (with_rates totaux_mars) =
      (if totalObjectif totaux_mars = 0 then Finite 0
       else js_percent (totalCA totaux_mars) (totalObjectif totaux_mars))"
    by blast
  then have 6: "s_tauxObjectif (with_rates totaux_mars) = js_percent 90000 100000"
    by (simp add: g)
  show ?thesis
    using f n h s v g(1,2) 1 2 3 4 5 6 by (intro conjI) simp_all
qed

section \<open>The lockout state machine\<close>

lemma find_Some_set: "find P xs = Some x \<Longrightarrow> x \<in> set xs \<and> P x"
  by (induction xs) (auto split: if_splits)

lemma new_user_lockout_inv: "lockout_inv (new_user L now i b)"
  by (simp add: lockout_inv_def new_user_def)

lemma unlockAccount_lockout_inv: "lockout_inv (unlockAccount u)"
  by (simp add: lockout_inv_def unlockAccount_def)

lemma incrementLoginAttempts_lockout_inv:
  "lockout_inv u \<Longrightarrow> \<not> compteBloque u \<Longrightarrow> lockout_inv (incrementLoginAttempts now u)"
  by (auto simp: lockout_inv_def incrementLoginAttempts_def Let_def)

lemma updateLastLogin_lockout_inv:
  "lockout_inv u \<Longrightarrow> \<not> compteBloque u \<Longrightarrow> lockout_inv (updateLastLogin now u)"
  by (auto simp: lockout_inv_def updateLastLogin_def)

lemma save_user_mem: "x \<in> set (save_user u users) \<Longrightarrow> x = u \<or> x \<in> set users"
  by (auto simp: save_user_def)

lemma login_preserves_lockout_inv:
  assumes "\<forall>u \<in> set users. lockout_inv u"
  shows "\<forall>u \<in> set (snd (login L now users req)). lockout_inv u"
proof (cases "login_valid L req")
  case False
  then show ?thesis using assms by (simp add: login_def)
next
  case True
  show ?thesis
  proof (cases "findOne_email users (normalizeEmail L (l_email req))")
    case None
    then show ?thesis using True assms by (simp add: login_def)
  next
    case (Some u)
    then have "u \<in> set users"
      by (auto simp: findOne_email_def dest: find_Some_set)
    then have inv: "lockout_inv u" using assms by blast
    show ?thesis
      using True Some assms inv
      by (auto simp: login_def Let_def dest!: save_user_mem
            intro: incrementLoginAttempts_lockout_inv updateLastLogin_lockout_inv)
  qed
qed

lemma register_preserves_lockout_inv:
  assumes "\<forall>u \<in> set users. lockout_inv u"
  shows "\<forall>u \<in> set (snd (register L now users req)). lockout_inv u"
  using assms new_user_lockout_inv [of L now]
  by (auto simp: register_def User_create_def Let_def lockout_inv_def split: if_splits)

lemma consecutive_failures:
  assumes "tentativesConnexion u = 0" and "\<not> compteBloque u" and "k \<le> 5"
  shows "tentativesConnexion ((incrementLoginAttempts now ^^ k) u) = int k \<and>
         (compteBloque ((incrementLoginAttempts now ^^ k) u) \<longleftrightarrow> k = 5)"
  using assms(3)
proof (induction k)
  case 0
  then show ?case using assms by simp
next
  case (Suc k)
  then show ?case
    by (auto simp: incrementLoginAttempts_def Let_def)
qed

text \<open>
  C3. For every stored user who is not blocked (and whose lockout fields are as the routes
  leave them), a login with a wrong password answers 401, stores the user with the
  failed-login counter incremented by exactly 1, and sets the blocked flag exactly when
  the incremented counter is 5, stamping the block date then and leaving it otherwise.
  By \<open>consecutive_failures\<close> that is the fifth consecutive failure.
\<close>

theorem failed_login_increments_and_blocks_at_five:
  assumes "lockout_inv u" and "\<not> compteBloque u" and "statut u = ''actif''"
    and "login_valid L req"
    and "findOne_email users (normalizeEmail L (l_email req)) = Some u"
    and "\<not> bcrypt_compare L (l_password req) (password u)"
  shows "login L now users req =
           (failure 401 IdentifiantsInvalides, save_user (incrementLoginAttempts now u) users) \<and>
         tentativesConnexion (incrementLoginAttempts now u) = tentativesConnexion u + 1 \<and>
         (compteBloque (incrementLoginAttempts now u) \<longleftrightarrow>
            tentativesConnexion (incrementLoginAttempts now u) = 5) \<and>
         dateBlocage (incrementLoginAttempts now u) =
           (if tentativesConnexion (incrementLoginAttempts now u) = 5 then Some now
            else dateBlocage u) \<and>
         lockout_inv (incrementLoginAttempts now u)"
proof -
  have "login L now users req =
          (failure 401 IdentifiantsInvalides, save_user (incrementLoginAttempts now u) users)"
    using assms by (simp add: login_def)
  moreover have "tentativesConnexion (incrementLoginAttempts now u) = tentativesConnexion u + 1"
    by (simp add: incrementLoginAttempts_def Let_def)
  moreover have "compteBloque (incrementLoginAttempts now u) \<longleftrightarrow>
      tentativesConnexion (incrementLoginAttempts now u) = 5"
    using assms(1,2) by (auto simp: incrementLoginAttempts_def lockout_inv_def Let_def)
  moreover have "dateBlocage (incrementLoginAttempts now u) =
      (if tentativesConnexion (incrementLoginAttempts now u) = 5 then Some now else dateBlocage u)"
    using assms(1,2) by (auto simp: incrementLoginAttempts_def lockout_inv_def Let_def)
  ultimately show ?thesis
    using incrementLoginAttempts_lockout_inv [OF assms(1,2)] by simp
qed

theorem failed_login_increments_and_blocks_at_five_witness:
  "lockout_inv (marie\<lparr>tentativesConnexion := 4\<rparr>) \<and>
   login_valid sample_libs \<lparr>l_email = ''marie@wawtelecom.com'', l_password = ''wrong''\<rparr> \<and>
   login sample_libs 7 [marie\<lparr>tentativesConnexion := 4\<rparr>, boura]
       \<lparr>l_email = ''marie@wawtelecom.com'', l_password = ''wrong''\<rparr> =
     (failure 401 IdentifiantsInvalides,
      [marie\<lparr>tentativesConnexion := 5, compteBloque := True, dateBlocage := Some 7\<rparr>, boura]) \<and>
   login sample_libs 7 [marie, boura]
       \<lparr>l_email = ''marie@wawtelecom.com'', l_password = ''wrong''\<rparr> =
     (failure 401 IdentifiantsInvalides, [marie\<lparr>tentativesConnexion := 1\<rparr>, boura])"
proof -
  let ?req = "\<lparr>l_email = ''marie@wawtelecom.com'', l_password = ''wrong''\<rparr>"
  let ?m4 = "marie\<lparr>tentativesConnexion := 4\<rparr>"
  have i4: "lockout_inv ?m4" and i0: "lockout_inv marie"
    by (simp_all add: lockout_inv_def marie_def)
  have v: "login_valid sample_libs ?req"
    by (simp add: login_valid_def sample_libs_def)
  have f4: "findOne_email [?m4, boura] (normalizeEmail sample_libs (l_email ?req)) = Some ?m4"
    and f0: "findOne_email [marie, boura] (normalizeEmail sample_libs (l_email ?req)) = Some marie"
    by (simp_all add: findOne_email_def sample_libs_def marie_def)
  have c: "\<not> bcrypt_compare sample_libs (l_password ?req) (password ?m4)"
    "\<not> bcrypt_compare sample_libs (l_password ?req) (password marie)"
    by (simp_all add: sample_libs_def marie_def)
  have s: "\<not> compteBloque ?m4" "statut ?m4 = ''actif''" "\<not> compteBloque marie"
    "statut marie = ''actif''"
    by (simp_all add: marie_def)
  have "login sample_libs 7 [?m4, boura] ?req =
      (failure 401 IdentifiantsInvalides, save_user (incrementLoginAttempts 7 ?m4) [?m4, boura])"
    using failed_login_increments_and_blocks_at_five [OF i4 s(1) s(2) v f4 c(1), of 7] by blast
  moreover have "login sample_libs 7 [marie, boura] ?req =
      (failure 401 IdentifiantsInvalides, save_user (incrementLoginAttempts 7 marie) [marie, boura])"
    using failed_login_increments_and_blocks_at_five [OF i0 s(3) s(4) v f0 c(2), of 7] by blast
  ultimately show ?thesis
    using i4 v
    by (simp add: save_user_def incrementLoginAttempts_def marie_def boura_def)
qed

section \<open>A successful login\<close>

text \<open>
  C5. For every user, whatever the failed-login counter was, \<^verbatim>\<open>updateLastLogin\<close> sets
  the counter to 0 and the last-login date to the current date and leaves the blocked
  flag, the block date and every other field as they were; and a login with the right
  password on an active, unblocked account answers 200 and stores exactly that user.
\<close>

theorem successful_login_resets_counter_only:
  "tentativesConnexion (updateLastLogin now u) = 0 \<and>
   derniereConnexion (updateLastLogin now u) = now \<and>
   compteBloque (updateLastLogin now u) = compteBloque u \<and>
   dateBlocage (updateLastLogin now u) = dateBlocage u \<and>
   updateLastLogin now u =
     u\<lparr>tentativesConnexion := 0, derniereConnexion := now\<rparr> \<and>
   (login_valid L req \<and> findOne_email users (normalizeEmail L (l_email req)) = Some u \<and>
    \<not> compteBloque u \<and> statut u = ''actif'' \<and>
    bcrypt_compare L (l_password req) (password u) \<longrightarrow>
      login L now users req =
        (Response 200 True (Some ConnexionReussie)
           (Some (jwt_sign L (u_id u), view_of u)),
         save_user (updateLastLogin now u) users))"
  by (simp add: updateLastLogin_def login_def view_of_def)

theorem successful_login_resets_counter_only_witness:
  "login_valid sample_libs \<lparr>l_email = ''marie@wawtelecom.com'', l_password = ''password123''\<rparr> \<and>
   login sample_libs 7 [marie\<lparr>tentativesConnexion := 4, dateBlocage := Some 3\<rparr>, boura]
       \<lparr>l_email = ''marie@wawtelecom.com'', l_password = ''password123''\<rparr> =
     (Response 200 True (Some ConnexionReussie) (Some (''t'', view_of marie)),
      [marie\<lparr>tentativesConnexion := 0, dateBlocage := Some 3, derniereConnexion := 7\<rparr>, boura])"
proof -
  let ?req = "\<lparr>l_email = ''marie@wawtelecom.com'', l_password = ''password123''\<rparr>"
  let ?m = "marie\<lparr>tentativesConnexion := 4, dateBlocage := Some 3\<rparr>"
  have v: "login_valid sample_libs ?req"
    by (simp add: login_valid_def sample_libs_def)
  have h: "findOne_email [?m, boura] (normalizeEmail sample_libs (l_email ?req)) = Some ?m \<and>
      \<not> compteBloque ?m \<and> statut ?m = ''actif'' \<and>
      bcrypt_compare sample_libs (l_password ?req) (password ?m)"
    by (simp add: findOne_email_def sample_libs_def marie_def)
  show ?thesis
    using successful_login_resets_counter_only [of 7 ?m sample_libs ?req "[?m, boura]"] v h
    by (simp add: save_user_def updateLastLogin_def view_of_def marie_def boura_def
          sample_libs_def)
qed

section \<open>Login against a blocked account\<close>

text \<open>
  C4, as stated, fails: the validation chain of the route runs before the account is
  looked up, so a login for a blocked account with an empty password is answered 400
  (invalid data) and not 423, and the replies for the empty and for a non-empty password
  differ.
\<close>

theorem blocked_login_empty_password_counterexample:
  "compteBloque marie_bloquee \<and>
   fst (login sample_libs 7 [marie_bloquee]
          \<lparr>l_email = ''marie@wawtelecom.com'', l_password = ''''\<rparr>) =
     failure 400 DonneesInvalides \<and>
   fst (login sample_libs 7 [marie_bloquee]
          \<lparr>l_email = ''marie@wawtelecom.com'', l_password = ''password123''\<rparr>) =
     failure 423 CompteBloqueContactez \<and>
   fst (login sample_libs 7 [marie_bloquee]
          \<lparr>l_email = ''marie@wawtelecom.com'', l_password = ''''\<rparr>) \<noteq>
   fst (login sample_libs 7 [marie_bloquee]
          \<lparr>l_email = ''marie@wawtelecom.com'', l_password = ''password123''\<rparr>)"
  by (simp add: login_def login_valid_def sample_libs_def marie_bloquee_def marie_def
        findOne_email_def failure_def)

text \<open>
  C4, amended. For every blocked user the request's email resolves to: a login that passes
  the validation chain (well-formed email, non-empty password) is answered 423 with the
  blocked message and the store is left as it was; whatever the request, the reply and the
  store do not depend on the password comparison, which is not consulted; for any two
  non-empty candidate passwords, the right one included, the reply is the same; and a login
  that does not pass the validation chain, as one with an empty password, is answered 400.
\<close>

theorem blocked_login_rejected_before_password_check:
  assumes "findOne_email users (normalizeEmail L (l_email req)) = Some u" and "compteBloque u"
  shows "(login_valid L req \<longrightarrow>
            login L now users req = (failure 423 CompteBloqueContactez, users)) \<and>
         (\<forall>cmp. login (L\<lparr>bcrypt_compare := cmp\<rparr>) now users req = login L now users req) \<and>
         (\<forall>p p'. p \<noteq> [] \<and> p' \<noteq> [] \<longrightarrow>
            login L now users (req\<lparr>l_password := p\<rparr>) =
            login L now users (req\<lparr>l_password := p'\<rparr>)) \<and>
         snd (login L now users req) = users \<and>
         (\<not> login_valid L req \<longrightarrow>
            login L now users req = (failure 400 DonneesInvalides, users)) \<and>
         login L now users (req\<lparr>l_password := []\<rparr>) = (failure 400 DonneesInvalides, users)"
  using assms by (simp add: login_def login_valid_def)

theorem blocked_login_rejected_before_password_check_witness:
  "findOne_email [marie_bloquee, boura]
       (normalizeEmail sample_libs ''marie@wawtelecom.com'') = Some marie_bloquee \<and>
   compteBloque marie_bloquee \<and>
   login_valid sample_libs \<lparr>l_email = ''marie@wawtelecom.com'', l_password = ''password123''\<rparr> \<and>
   bcrypt_compare sample_libs ''password123'' (password marie_bloquee) \<and>
   login sample_libs 7 [marie_bloquee, boura]
       \<lparr>l_email = ''marie@wawtelecom.com'', l_password = ''password123''\<rparr> =
     (failure 423 CompteBloqueContactez, [marie_bloquee, boura]) \<and>
   login sample_libs 7 [marie_bloquee, boura]
       \<lparr>l_email = ''marie@wawtelecom.com'', l_password = ''wrong''\<rparr> =
     (failure 423 CompteBloqueContactez, [marie_bloquee, boura]) \<and>
   \<not> login_valid sample_libs \<lparr>l_email = ''marie@wawtelecom.com'', l_password = []\<rparr> \<and>
   login sample_libs 7 [marie_bloquee, boura]
       \<lparr>l_email = ''marie@wawtelecom.com'', l_password = []\<rparr> =
     (failure 400 DonneesInvalides, [marie_bloquee, boura])"
proof -
  let ?req = "\<lparr>l_email = ''marie@wawtelecom.com'', l_password = ''password123''\<rparr>"
  let ?empty = "\<lparr>l_email = ''marie@wawtelecom.com'', l_password = []\<rparr>"
  have f': "findOne_email [marie_bloquee, boura] (normalizeEmail sample_libs (l_email ?empty)) =
      Some marie_bloquee"
    by (simp add: findOne_email_def sample_libs_def marie_bloquee_def marie_def)
  have v': "\<not> login_valid sample_libs ?empty"
    by (simp add: login_valid_def)
  have f: "findOne_email [marie_bloquee, boura] (normalizeEmail sample_libs (l_email ?req)) =
      Some marie_bloquee"
    by (simp add: findOne_email_def sample_libs_def marie_bloquee_def marie_def)
  have b: "compteBloque marie_bloquee"
    by (simp add: marie_bloquee_def)
  have v: "login_valid sample_libs ?req"
    by (simp add: login_valid_def sample_libs_def)
  have c: "bcrypt_compare sample_libs ''password123'' (password marie_bloquee)"
    by (simp add: sample_libs_def marie_bloquee_def marie_def)
  note t = blocked_login_rejected_before_password_check [OF f b, of 7]
  from t v have 1: "login sample_libs 7 [marie_bloquee, boura] ?req =
      (failure 423 CompteBloqueContactez, [marie_bloquee, boura])"
    by blast
  from t have 2: "\<forall>p p'. p \<noteq> [] \<and> p' \<noteq> [] \<longrightarrow>
      login sample_libs 7 [marie_bloquee, boura] (?req\<lparr>l_password := p\<rparr>) =
      login sample_libs 7 [marie_bloquee, boura] (?req\<lparr>l_password := p'\<rparr>)"
    by blast
  have 3: "login sample_libs 7 [marie_bloquee, boura]
        \<lparr>l_email = ''marie@wawtelecom.com'', l_password = ''wrong''\<rparr> =
      login sample_libs 7 [marie_bloquee, boura] ?req"
    using 2 [rule_format, of "''wrong''" "''password123''"] by simp
  note t' = blocked_login_rejected_before_password_check [OF f' b, of 7]
  from t' v' have 4: "login sample_libs 7 [marie_bloquee, boura] ?empty =
      (failure 400 DonneesInvalides, [marie_bloquee, boura])"
    by blast
  show ?thesis
    using f b v c 1 3 v' 4 by simp
qed

section \<open>Registration\<close>

lemma fold_max_ge: "a \<le> fold max xs (a::nat)"
  by (induction xs arbitrary: a) (auto intro: order_trans [OF max.cobounded2])

lemma fold_max_mem: "x \<in> set xs \<Longrightarrow> x \<le> fold max xs (a::nat)"
proof (induction xs arbitrary: a)
  case Nil
  then show ?case by simp
next
  case (Cons y ys)
  show ?case
  proof (cases "x = y")
    case True
    then show ?thesis
      using fold_max_ge [of "max y a" ys] by simp
  next
    case False
    then show ?thesis using Cons by simp
  qed
qed

lemma new_id_fresh: "new_id ids \<notin> set ids"
proof
  assume "new_id ids \<in> set ids"
  then have "new_id ids \<le> fold max ids 0" by (rule fold_max_mem)
  then show False by (simp add: new_id_def)
qed

lemma register_created_role:
  assumes "register L now users req = (resp, users')" and "status resp = 201"
  shows "\<exists>u. users' = users @ [u] \<and>
           role u = (case r_role req of None \<Rightarrow> ''utilisateur'' | Some r \<Rightarrow> r)"
  using assms
  by (auto simp: register_def User_create_def Let_def new_user_def failure_def
        split: if_splits)

text \<open>
  C10. Registration is a public route: the handler takes no token and no identity. For
  every request that is accepted when it names no role, the same request naming a role of
  the schema's enumeration (``admin'' and ``manager'' among them) is accepted too, answers
  201, and stores the same user with exactly that role, which the reply shows; without a
  role the stored role is the default ``utilisateur''. Whenever a registration answers 201,
  the role of the user it stores is the role of the body, and the default only for a body
  without a role.
\<close>

theorem register_persists_supplied_role:
  assumes "status (fst (register L now users (req\<lparr>r_role := None\<rparr>))) = 201"
    and "r \<in> set role_enum"
  shows "\<exists>u0. register L now users (req\<lparr>r_role := None\<rparr>) =
                (Response 201 True (Some UtilisateurCree)
                   (Some (jwt_sign L (u_id u0), view_of u0)), users @ [u0]) \<and>
              role u0 = ''utilisateur'' \<and>
              register L now users (req\<lparr>r_role := Some r\<rparr>) =
                (Response 201 True (Some UtilisateurCree)
                   (Some (jwt_sign L (u_id u0), view_of (u0\<lparr>role := r\<rparr>))),
                 users @ [u0\<lparr>role := r\<rparr>]) \<and>
              v_role (view_of (u0\<lparr>role := r\<rparr>)) = r"
  using assms
  by (auto simp: register_def register_valid_def User_create_def Let_def new_user_def
        user_schema_valid_def failure_def view_of_def role_enum_def
        split: if_splits)

theorem register_persists_supplied_role_witness:
  "status (fst (register sample_libs 7 [marie, boura] inscription)) = 201 \<and>
   ''admin'' \<in> set role_enum \<and>
   (\<exists>u. register sample_libs 7 [marie, boura] (inscription\<lparr>r_role := Some ''admin''\<rparr>) =
          (Response 201 True (Some UtilisateurCree) (Some (jwt_sign sample_libs (u_id u), view_of u)),
           [marie, boura, u]) \<and>
        role u = ''admin'')"
proof -
  have n: "inscription\<lparr>r_role := None\<rparr> = inscription"
    by (simp add: inscription_def)
  have a: "status (fst (register sample_libs 7 [marie, boura] inscription)) = 201"
    by (simp add: register_def register_valid_def User_create_def Let_def new_user_def
          user_schema_valid_def role_enum_def findOne_email_def new_id_def
          sample_libs_def inscription_def marie_def boura_def)
  have a': "status (fst (register sample_libs 7 [marie, boura] (inscription\<lparr>r_role := None\<rparr>))) = 201"
    by (simp only: n a)
  have e: "''admin'' \<in> set role_enum"
    by (simp add: role_enum_def)
  from register_persists_supplied_role [OF a' e]
  obtain u0 where
    "register sample_libs 7 [marie, boura] (inscription\<lparr>r_role := None\<rparr>) =
       (Response 201 True (Some UtilisateurCree)
          (Some (jwt_sign sample_libs (u_id u0), view_of u0)), [marie, boura] @ [u0]) \<and>
     role u0 = ''utilisateur'' \<and>
     register sample_libs 7 [marie, boura] (inscription\<lparr>r_role := Some ''admin''\<rparr>) =
       (Response 201 True (Some UtilisateurCree)
          (Some (jwt_sign sample_libs (u_id u0), view_of (u0\<lparr>role := ''admin''\<rparr>))),
        [marie, boura] @ [u0\<lparr>role := ''admin''\<rparr>]) \<and>
     v_role (view_of (u0\<lparr>role := ''admin''\<rparr>)) = ''admin''"
    by (elim exE)
  then have r:
    "register sample_libs 7 [marie, boura] (inscription\<lparr>r_role := Some ''admin''\<rparr>) =
       (Response 201 True (Some UtilisateurCree)
          (Some (jwt_sign sample_libs (u_id u0), view_of (u0\<lparr>role := ''admin''\<rparr>))),
        [marie, boura] @ [u0\<lparr>role := ''admin''\<rparr>])"
    by (elim conjE)
  have "register sample_libs 7 [marie, boura] (inscription\<lparr>r_role := Some ''admin''\<rparr>) =
       (Response 201 True (Some UtilisateurCree)
          (Some (jwt_sign sample_libs (u_id (u0\<lparr>role := ''admin''\<rparr>)),
                 view_of (u0\<lparr>role := ''admin''\<rparr>))),
        [marie, boura, u0\<lparr>role := ''admin''\<rparr>]) \<and>
      role (u0\<lparr>role := ''admin''\<rparr>) = ''admin''"
    unfolding r by simp
  then have "\<exists>u. register sample_libs 7 [marie, boura] (inscription\<lparr>r_role := Some ''admin''\<rparr>) =
          (Response 201 True (Some UtilisateurCree) (Some (jwt_sign sample_libs (u_id u), view_of u)),
           [marie, boura, u]) \<and>
        role u = ''admin''"
    by (rule exI [of _ "u0\<lparr>role := ''admin''\<rparr>"])
  with a e show ?thesis
    by (intro conjI)
qed

section \<open>The authorization gate\<close>

lemma findById_user_Some: "findById_user users i = Some u \<Longrightarrow> u_id u = i \<and> u \<in> set users"
  by (auto simp: findById_user_def dest: find_Some_set)

lemma findById_user_again: "findById_user users i = Some u \<Longrightarrow> findById_user users (u_id u) = Some u"
  using findById_user_Some by fastforce

lemma protect_eq_first_failure:
  "(\<forall>c. find (check_fails L roles users a) spec_order_protect = Some c \<longrightarrow>
        protect L users a = Inl (check_reply L a c)) \<and>
   (find (check_fails L roles users a) spec_order_protect = None \<longrightarrow>
        (\<exists>u. token_user L users a = Some u \<and> protect L users a = Inr (identity_of u)))"
  by (auto simp: protect_def check_fails_def check_reply_def token_user_def spec_order_protect_def
        split: sum.splits option.splits jwt_error.splits)

lemma gate_eq_first_failure:
  "(\<forall>c. find (check_fails L roles users a) spec_order = Some c \<longrightarrow>
        gate L roles users a = Inl (check_reply L a c)) \<and>
   (find (check_fails L roles users a) spec_order = None \<longrightarrow>
        (\<exists>u. token_user L users a = Some u \<and> gate L roles users a = Inr (identity_of u)))"
  by (auto simp: gate_def protect_def authorizeRoles_def check_fails_def check_reply_def
        token_user_def spec_order_def spec_order_protect_def identity_of_def
        dest: findById_user_again findById_user_Some
        split: sum.splits option.splits jwt_error.splits)

text \<open>
  C6. For every request, the reply of \<^verbatim>\<open>protect\<close>, and of \<^verbatim>\<open>protect\<close> followed by
  \<^verbatim>\<open>authorizeRoles\<close>, is the reply of the first check that fails in the fixed order
  missing token, invalid or expired token, user lookup, account inactive, account blocked,
  insufficient role; the request passes, with the identity of the token's account, exactly
  when no check fails. In particular a token that verifies (valid signature, not expired)
  is rejected, 403 for an inactive and otherwise 423 for a blocked account, whenever the
  account it names is now inactive or blocked: the state is read from the store on every
  request.
\<close>

theorem gate_decides_in_fixed_order:
  "(\<forall>c. find (check_fails L roles users a) spec_order = Some c \<longrightarrow>
        gate L roles users a = Inl (check_reply L a c)) \<and>
   (find (check_fails L roles users a) spec_order = None \<longrightarrow>
        (\<exists>u. token_user L users a = Some u \<and> gate L roles users a = Inr (identity_of u))) \<and>
   (\<forall>c. find (check_fails L roles users a) spec_order_protect = Some c \<longrightarrow>
        protect L users a = Inl (check_reply L a c)) \<and>
   (find (check_fails L roles users a) spec_order_protect = None \<longrightarrow>
        (\<exists>u. token_user L users a = Some u \<and> protect L users a = Inr (identity_of u))) \<and>
   (\<forall>uid u. has_bearer a \<and> verify L (bearer_token (the_header a)) = Inr uid \<and>
        findById_user users uid = Some u \<and> (statut u \<noteq> ''actif'' \<or> compteBloque u) \<longrightarrow>
        protect L users a =
          Inl (if statut u \<noteq> ''actif'' then failure 403 CompteInactif
               else failure 423 CompteBloque) \<and>
        gate L roles users a =
          Inl (if statut u \<noteq> ''actif'' then failure 403 CompteInactif
               else failure 423 CompteBloque))"
proof -
  have "\<forall>uid u. has_bearer a \<and> verify L (bearer_token (the_header a)) = Inr uid \<and>
        findById_user users uid = Some u \<and> (statut u \<noteq> ''actif'' \<or> compteBloque u) \<longrightarrow>
        protect L users a =
          Inl (if statut u \<noteq> ''actif'' then failure 403 CompteInactif
               else failure 423 CompteBloque) \<and>
        gate L roles users a =
          Inl (if statut u \<noteq> ''actif'' then failure 403 CompteInactif
               else failure 423 CompteBloque)"
    by (auto simp: gate_def protect_def)
  then show ?thesis
    using gate_eq_first_failure [of L roles users a] protect_eq_first_failure [of L roles users a]
    by blast
qed

theorem gate_decides_in_fixed_order_witness:
  "find (check_fails sample_libs [''admin'', ''manager''] [marie\<lparr>statut := ''inactif''\<rparr>, marie_bloquee]
          (Some ''Bearer t'')) spec_order = Some Inactive \<and>
   gate sample_libs [''admin'', ''manager''] [marie\<lparr>statut := ''inactif''\<rparr>] (Some ''Bearer t'') =
     Inl (failure 403 CompteInactif) \<and>
   verify sample_libs (bearer_token (the_header (Some ''Bearer t''))) = Inr 1 \<and>
   gate sample_libs [''admin'', ''manager''] [marie_bloquee] (Some ''Bearer t'') =
     Inl (failure 423 CompteBloque) \<and>
   gate sample_libs [''admin'', ''manager''] [marie, boura] (Some ''Bearer t'') =
     Inl (failure 403 RoleInsuffisant) \<and>
   gate sample_libs [''admin'', ''manager''] [marie, boura] (Some ''Bearer tt'') =
     Inr (identity_of boura) \<and>
   gate sample_libs [''admin'', ''manager''] [marie, boura] (Some ''Bearer expired'') =
     Inl (failure 401 TokenExpire) \<and>
   gate sample_libs [''admin'', ''manager''] [marie, boura] None =
     Inl (failure 401 TokenManquant)"
proof -
  let ?roles = "[''admin'', ''manager'']"
  let ?inactive = "marie\<lparr>statut := ''inactif''\<rparr>"
  have v1: "verify sample_libs (bearer_token (the_header (Some ''Bearer t''))) = Inr 1"
    and v2: "verify sample_libs (bearer_token (the_header (Some ''Bearer tt''))) = Inr 2"
    and v3: "verify sample_libs (bearer_token (the_header (Some ''Bearer expired''))) =
               Inl TokenExpiredError"
    by (simp_all add: verify_def bearer_token_def the_header_def sample_libs_def)
  have b: "has_bearer (Some ''Bearer t'')" "has_bearer (Some ''Bearer tt'')"
    "has_bearer (Some ''Bearer expired'')" "\<not> has_bearer None"
    by (simp_all add: has_bearer_def)
  have f1: "find (check_fails sample_libs ?roles [?inactive, marie_bloquee] (Some ''Bearer t''))
              spec_order = Some Inactive"
    using v1 b
    by (simp add: check_fails_def token_user_def spec_order_def spec_order_protect_def
          findById_user_def marie_def)
  have f1': "find (check_fails sample_libs ?roles [?inactive] (Some ''Bearer t''))
              spec_order = Some Inactive"
    using v1 b
    by (simp add: check_fails_def token_user_def spec_order_def spec_order_protect_def
          findById_user_def marie_def)
  have f2: "find (check_fails sample_libs ?roles [marie_bloquee] (Some ''Bearer t''))
              spec_order = Some Blocked"
    using v1 b
    by (simp add: check_fails_def token_user_def spec_order_def spec_order_protect_def
          findById_user_def marie_def marie_bloquee_def)
  have f3: "find (check_fails sample_libs ?roles [marie, boura] (Some ''Bearer t''))
              spec_order = Some InsufficientRole"
    using v1 b
    by (simp add: check_fails_def token_user_def spec_order_def spec_order_protect_def
          findById_user_def marie_def)
  have f4: "find (check_fails sample_libs ?roles [marie, boura] (Some ''Bearer tt''))
              spec_order = None"
    and t4: "token_user sample_libs [marie, boura] (Some ''Bearer tt'') = Some boura"
    using v2 b
    by (simp_all add: check_fails_def token_user_def spec_order_def spec_order_protect_def
          findById_user_def marie_def boura_def)
  have f5: "find (check_fails sample_libs ?roles [marie, boura] (Some ''Bearer expired''))
              spec_order = Some BadToken"
    using v3 b
    by (simp add: check_fails_def token_user_def spec_order_def spec_order_protect_def)
  have f6: "find (check_fails sample_libs ?roles [marie, boura] None) spec_order = Some MissingToken"
    using b by (simp add: check_fails_def spec_order_def spec_order_protect_def)
  have g1: "gate sample_libs ?roles [?inactive] (Some ''Bearer t'') =
      Inl (check_reply sample_libs (Some ''Bearer t'') Inactive)"
    using gate_decides_in_fixed_order [of sample_libs ?roles "[?inactive]" "Some ''Bearer t''"] f1'
    by blast
  have g2: "gate sample_libs ?roles [marie_bloquee] (Some ''Bearer t'') =
      Inl (check_reply sample_libs (Some ''Bearer t'') Blocked)"
    using gate_decides_in_fixed_order [of sample_libs ?roles "[marie_bloquee]" "Some ''Bearer t''"] f2
    by blast
  have g3: "gate sample_libs ?roles [marie, boura] (Some ''Bearer t'') =
      Inl (check_reply sample_libs (Some ''Bearer t'') InsufficientRole)"
    using gate_decides_in_fixed_order [of sample_libs ?roles "[marie, boura]" "Some ''Bearer t''"] f3
    by blast
  have g4: "gate sample_libs ?roles [marie, boura] (Some ''Bearer tt'') = Inr (identity_of boura)"
    using gate_decides_in_fixed_order [of sample_libs ?roles "[marie, boura]" "Some ''Bearer tt''"]
      f4 t4
    by auto
  have g5: "gate sample_libs ?roles [marie, boura] (Some ''Bearer expired'') =
      Inl (check_reply sample_libs (Some ''Bearer expired'') BadToken)"
    using gate_decides_in_fixed_order [of sample_libs ?roles "[marie, boura]"
        "Some ''Bearer expired''"] f5
    by blast
  have g6: "gate sample_libs ?roles [marie, boura] None =
      Inl (check_reply sample_libs None MissingToken)"
    using gate_decides_in_fixed_order [of sample_libs ?roles "[marie, boura]" None] f6
    by blast
  show ?thesis
    using f1 v1 g1 g2 g3 g4 g5 g6 v3
    by (simp add: check_reply_def)
qed

section \<open>Reading and deleting one record\<close>

lemma findById_user_with_role:
  "findById_user (with_role j r users) i =
     map_option (\<lambda>u. if u_id u = j then u\<lparr>role := r\<rparr> else u) (findById_user users i)"
  by (induction users) (auto simp: findById_user_def with_role_def)

lemma protect_with_role: "protect L (with_role j r users) a = protect L users a"
  by (auto simp: protect_def findById_user_with_role identity_of_def
        split: sum.splits option.splits)

text \<open>
  C9. For every record \<open>R\<close> of the store and every caller the gate authenticates who is not
  the owner of \<open>R\<close>, whatever role the caller has: the read and the delete of \<open>R\<close> are
  answered 403 (access denied), and the delete leaves the store as it was, \<open>R\<close> still in it.
  For an authenticated caller either route answers 404 exactly when the store has no
  record with the identifier. The read answers for an owner the users collection holds, as
  is the owner of every record the routes create.
\<close>

theorem non_owner_read_and_delete_forbidden:
  assumes "(protect L users a :: performance response + identity) = Inr c"
    and "findById store i = Some R"
    and "utilisateur R \<noteq> i_id c"
    and "findById_user users (utilisateur R) \<noteq> None"
  shows "route_get L users store a i = failure 403 AccesNonAutorise \<and>
         route_delete L users store a i = (failure 403 AccesNonAutorise, store) \<and>
         findById (snd (route_delete L users store a i)) i = Some R \<and>
         (\<forall>r. route_get L (with_role (i_id c) r users) store a i = failure 403 AccesNonAutorise \<and>
              route_delete L (with_role (i_id c) r users) store a i =
                (failure 403 AccesNonAutorise, store)) \<and>
         (\<forall>j. status (route_get L users store a j) = 404 \<longleftrightarrow> findById store j = None) \<and>
         (\<forall>j. status (fst (route_delete L users store a j)) = 404 \<longleftrightarrow> findById store j = None)"
proof -
  obtain owner where o: "findById_user users (utilisateur R) = Some owner"
    using assms(4) by blast
  then have oid: "u_id owner = utilisateur R"
    by (simp add: findById_user_Some)
  have g: "route_get L users store a i = failure 403 AccesNonAutorise"
    using assms(1-3) o oid by (simp add: route_get_def getPerformance_def)
  have d: "route_delete L users store a i = (failure 403 AccesNonAutorise, store)"
    using assms(1-3) by (simp add: route_delete_def deletePerformance_def)
  have r: "route_get L (with_role (i_id c) r users) store a i = failure 403 AccesNonAutorise \<and>
           route_delete L (with_role (i_id c) r users) store a i =
             (failure 403 AccesNonAutorise, store)" for r
    using assms(1-3) o oid
    by (simp add: route_get_def route_delete_def getPerformance_def deletePerformance_def
          protect_with_role findById_user_with_role)
  have n1: "status (route_get L users store a j) = 404 \<longleftrightarrow> findById store j = None" for j
    using assms(1)
    by (auto simp: route_get_def getPerformance_def failure_def split: option.splits)
  have n2: "status (fst (route_delete L users store a j)) = 404 \<longleftrightarrow> findById store j = None" for j
    using assms(1)
    by (auto simp: route_delete_def deletePerformance_def failure_def split: option.splits)
  show ?thesis
    using g d r n1 n2 assms(2) by simp
qed

theorem non_owner_read_and_delete_forbidden_witness:
  "(protect sample_libs [marie, boura] (Some ''Bearer tt'') :: performance response + identity) =
     Inr (identity_of boura) \<and>
   role boura = ''admin'' \<and>
   findById [perf_mars] 1 = Some perf_mars \<and>
   utilisateur perf_mars \<noteq> i_id (identity_of boura) \<and>
   findById_user [marie, boura] (utilisateur perf_mars) \<noteq> None \<and>
   route_get sample_libs [marie, boura] [perf_mars] (Some ''Bearer tt'') 1 =
     failure 403 AccesNonAutorise \<and>
   route_delete sample_libs [marie, boura] [perf_mars] (Some ''Bearer tt'') 1 =
     (failure 403 AccesNonAutorise, [perf_mars]) \<and>
   status (route_get sample_libs [marie, boura] [perf_mars] (Some ''Bearer tt'') 2) = 404"
proof -
  have p: "(protect sample_libs [marie, boura] (Some ''Bearer tt'') ::
              performance response + identity) = Inr (identity_of boura)"
    by (simp add: protect_def has_bearer_def the_header_def bearer_token_def verify_def
          findById_user_def sample_libs_def marie_def boura_def)
  have f: "findById [perf_mars] 1 = Some perf_mars"
    by (simp add: findById_def perf_mars_def new_performance_def)
  have n: "findById [perf_mars] 2 = None"
    by (simp add: findById_def perf_mars_def new_performance_def)
  have u: "utilisateur perf_mars \<noteq> i_id (identity_of boura)"
    by (simp add: perf_mars_def new_performance_def identity_of_def boura_def)
  have ow: "findById_user [marie, boura] (utilisateur perf_mars) \<noteq> None"
    by (simp add: findById_user_def perf_mars_def new_performance_def marie_def)
  have ro: "role boura = ''admin''"
    by (simp add: boura_def)
  note t = non_owner_read_and_delete_forbidden [OF p f u ow]
  from t have 1: "route_get sample_libs [marie, boura] [perf_mars] (Some ''Bearer tt'') 1 =
      failure 403 AccesNonAutorise"
    by blast
  from t have 2: "route_delete sample_libs [marie, boura] [perf_mars] (Some ''Bearer tt'') 1 =
      (failure 403 AccesNonAutorise, [perf_mars])"
    by blast
  from t have "\<forall>j. status (route_get sample_libs [marie, boura] [perf_mars] (Some ''Bearer tt'') j) = 404
      \<longleftrightarrow> findById [perf_mars] j = None"
    by blast
  then have 3: "status (route_get sample_libs [marie, boura] [perf_mars] (Some ''Bearer tt'') 2) = 404"
    using n by blast
  show ?thesis
    using p ro f u ow 1 2 3 by (intro conjI)
qed

section \<open>Upsert by period\<close>

lemma findOne_period_None: "findOne_period store uid y m = None \<longleftrightarrow> key_count uid y m store = 0"
  by (auto simp: findOne_period_def key_count_def period_key_def find_None_iff filter_empty_conv)

lemma findOne_period_Some:
  "findOne_period store uid y m = Some e \<Longrightarrow> e \<in> set store \<and> period_key e = (uid, y, m)"
  by (auto simp: findOne_period_def period_key_def dest: find_Some_set)

lemma distinct_count_le_1: "distinct (map f xs) \<Longrightarrow> length (filter (\<lambda>x. f x = k) xs) \<le> 1"
proof (induction xs)
  case Nil
  then show ?case by simp
next
  case (Cons x xs)
  show ?case
  proof (cases "f x = k")
    case True
    then have "\<forall>z \<in> set xs. f z \<noteq> k" using Cons.prems by (auto simp: image_iff)
    then have "filter (\<lambda>x. f x = k) xs = []" by (simp add: filter_empty_conv)
    then show ?thesis using True by simp
  next
    case False
    then show ?thesis using Cons by simp
  qed
qed

lemma key_count_le_1: "unique_indexes store \<Longrightarrow> key_count uid y m store \<le> 1"
  using distinct_count_le_1 [of period_key store "(uid, y, m)"]
  by (simp add: unique_indexes_def key_count_def)

lemma key_count_map: "key_count uid y m store = length (filter (\<lambda>k. k = (uid, y, m)) (map period_key store))"
  by (simp add: key_count_def filter_map comp_def)

lemma map_p_id_update_first:
  "(\<And>p. p_id (f p) = p_id p) \<Longrightarrow> map p_id (update_first i f store) = map p_id store"
  by (induction store) auto

lemma map_key_update_first:
  assumes "distinct (map p_id store)" and "e \<in> set store" and "period_key (f e) = period_key e"
  shows "map period_key (update_first (p_id e) f store) = map period_key store"
  using assms
proof (induction store)
  case Nil
  then show ?case by simp
next
  case (Cons p ps)
  show ?case
  proof (cases "p_id p = p_id e")
    case True
    then have "p = e" using Cons.prems(1,2) by force
    then show ?thesis using Cons.prems(3) by simp
  next
    case False
    then show ?thesis using Cons by auto
  qed
qed

lemma period_key_apply_update:
  "period_key (apply_update uid b p) = (uid, b_annee b, b_mois b)"
  by (simp add: period_key_def apply_update_def)

lemma p_id_apply_update: "p_id (apply_update uid b p) = p_id p"
  by (simp add: apply_update_def)

lemma update_in_place:
  assumes "unique_indexes store" and "findOne_period store uid (b_annee b) (b_mois b) = Some e"
  shows "map p_id (update_first (p_id e) (apply_update uid b) store) = map p_id store \<and>
         map period_key (update_first (p_id e) (apply_update uid b) store) = map period_key store"
proof -
  have e: "e \<in> set store" "period_key e = (uid, b_annee b, b_mois b)"
    using findOne_period_Some [OF assms(2)] by simp_all
  have "period_key (apply_update uid b e) = period_key e"
    using e(2) by (simp add: period_key_apply_update)
  then show ?thesis
    using assms(1) e(1)
    by (simp add: unique_indexes_def map_key_update_first map_p_id_update_first p_id_apply_update)
qed

lemma create_appends:
  assumes "unique_indexes store" and "Performance_create now uid b store = Inr (p, store')"
  shows "store' = store @ [p] \<and> period_key p = (uid, b_annee b, b_mois b) \<and> unique_indexes store'"
proof -
  let ?doc = "new_performance now (new_id (map p_id store)) uid b"
  have 1: "p = ?doc" "store' = store @ [?doc]"
    and 2: "\<not> list_ex (\<lambda>q. p_id q = p_id ?doc \<or>
              (utilisateur q = utilisateur ?doc \<and> annee q = annee ?doc \<and> mois q = mois ?doc)) store"
    using assms(2) by (auto simp: Performance_create_def Let_def split: if_splits)
  have k: "period_key ?doc = (uid, b_annee b, b_mois b)"
    by (simp add: period_key_def new_performance_def)
  have "p_id ?doc \<notin> set (map p_id store)"
    using 2 by (auto simp: list_ex_iff)
  moreover have "period_key ?doc \<notin> set (map period_key store)"
    using 2 by (auto simp: list_ex_iff period_key_def)
  ultimately show ?thesis
    using assms(1) 1 k by (simp add: unique_indexes_def)
qed

lemma upsert_step:
  assumes "unique_indexes store" and "b_annee b = y" and "b_mois b = m"
    and "upsert now uid b store = (r, store')"
  shows "unique_indexes store' \<and>
         (status r = 201 \<longrightarrow>
            key_count uid y m store = 0 \<and> key_count uid y m store' = 1 \<and>
            length store' = Suc (length store)) \<and>
         (status r = 200 \<longrightarrow>
            key_count uid y m store = 1 \<and> key_count uid y m store' = 1 \<and>
            map p_id store' = map p_id store) \<and>
         (status r \<noteq> 200 \<and> status r \<noteq> 201 \<longrightarrow> store' = store)"
proof (cases "body_valid b")
  case False
  then show ?thesis using assms by (auto simp: upsert_def failure_def)
next
  case valid: True
  show ?thesis
  proof (cases "findOne_period store uid y m")
    case None
    then have k0: "key_count uid y m store = 0" by (simp add: findOne_period_None)
    show ?thesis
    proof (cases "Performance_create now uid b store")
      case (Inl e)
      then show ?thesis
        using assms valid None by (auto simp: upsert_def failure_def split: if_splits)
    next
      case (Inr ps)
      obtain p s where ps: "ps = (p, s)" by (cases ps)
      have a: "s = store @ [p]" "period_key p = (uid, y, m)" "unique_indexes s"
        using create_appends [OF assms(1)] Inr ps assms(2,3) by auto
      have "key_count uid y m s = 1"
        using a(1,2) k0 by (simp add: key_count_def)
      moreover have "r = Response 201 True (Some DonneesCreees) (Some p)" "store' = s"
        using assms(2-4) valid None Inr ps by (auto simp: upsert_def)
      ultimately show ?thesis
        using a k0 by simp
    qed
  next
    case (Some e)
    then have ne: "key_count uid y m store \<noteq> 0"
      using findOne_period_None [of store uid y m] by simp
    then have k1: "key_count uid y m store = 1"
      using key_count_le_1 [OF assms(1), of uid y m] by simp
    show ?thesis
    proof (cases "update_valid b")
      case False
      then show ?thesis
        using assms valid Some
        by (auto simp: upsert_def findByIdAndUpdate_def failure_def split: if_splits)
    next
      case True
      let ?s = "update_first (p_id e) (apply_update uid b) store"
      have u: "map p_id ?s = map p_id store" "map period_key ?s = map period_key store"
        using update_in_place [OF assms(1), of uid b e] Some assms(2,3) by simp_all
      have "status r = 200" "store' = ?s"
        using assms(2-4) valid Some True
        by (auto simp: upsert_def findByIdAndUpdate_def Let_def)
      moreover have "unique_indexes ?s"
        using assms(1) u by (simp add: unique_indexes_def)
      moreover have "key_count uid y m ?s = 1"
        using k1 u(2) by (simp add: key_count_map)
      ultimately show ?thesis
        using k1 u by simp
    qed
  qed
qed

lemma schema_valid_new_performance:
  "schema_valid (new_performance now i uid b) = schema_valid (new_performance 0 0 0 b)"
  by (simp add: schema_valid_def new_performance_def)

lemma pre_save_new_performance:
  "pre_save (new_performance now i uid b) = pre_save (new_performance 0 0 0 b)"
  by (simp add: pre_save_def new_performance_def)

lemma accepted_body_create:
  assumes "accepted_body b"
  shows "schema_valid (new_performance now i uid b) \<and> pre_save (new_performance now i uid b)"
  using assms schema_valid_new_performance [of now i uid b] pre_save_new_performance [of now i uid b]
  unfolding accepted_body_def by blast

lemma new_performance_sel:
  "p_id (new_performance now i uid b) = i"
  "utilisateur (new_performance now i uid b) = uid"
  "annee (new_performance now i uid b) = b_annee b"
  "mois (new_performance now i uid b) = b_mois b"
  by (simp_all add: new_performance_def)

lemma upsert_accepted:
  assumes "unique_indexes store" and "accepted_body b"
  shows "status (fst (upsert now uid b store)) =
           (if key_count uid (b_annee b) (b_mois b) store = 0 then 201 else 200)"
proof (cases "findOne_period store uid (b_annee b) (b_mois b)")
  case None
  let ?doc = "new_performance now (new_id (map p_id store)) uid b"
  have k0: "key_count uid (b_annee b) (b_mois b) store = 0"
    using None by (simp add: findOne_period_None)
  then have "\<forall>q \<in> set store. period_key q \<noteq> (uid, b_annee b, b_mois b)"
    by (simp add: key_count_def filter_empty_conv)
  moreover have "\<forall>q \<in> set store. p_id q \<noteq> new_id (map p_id store)"
    using new_id_fresh [of "map p_id store"] by (auto simp: image_iff)
  ultimately have "\<not> list_ex (\<lambda>q. p_id q = new_id (map p_id store) \<or>
      (utilisateur q = uid \<and> annee q = b_annee b \<and> mois q = b_mois b)) store"
    unfolding list_ex_iff period_key_def by blast
  then have "\<not> list_ex (\<lambda>q. p_id q = p_id ?doc \<or>
      (utilisateur q = utilisateur ?doc \<and> annee q = annee ?doc \<and> mois q = mois ?doc)) store"
    by (simp add: new_performance_sel)
  moreover have "schema_valid ?doc" "pre_save ?doc" "body_valid b"
    using assms(2) accepted_body_create [OF assms(2), of now "new_id (map p_id store)" uid]
    by (simp_all add: accepted_body_def)
  ultimately show ?thesis
    using None k0 by (simp add: upsert_def Performance_create_def Let_def)
next
  case (Some e)
  then have "key_count uid (b_annee b) (b_mois b) store \<noteq> 0"
    using findOne_period_None [of store uid "b_annee b" "b_mois b"] by simp
  then show ?thesis
    using Some assms(2)
    by (simp add: upsert_def findByIdAndUpdate_def Let_def accepted_body_def)
qed

lemma create_then_update_no_second: "create_then_update True cs \<Longrightarrow> 201 \<notin> set cs"
  by (induction cs) (auto split: if_splits)

lemma upserts_Cons:
  "upserts uid (call # calls) store =
     (status (fst (upsert (fst call) uid (snd call) store)) #
        fst (upserts uid calls (snd (upsert (fst call) uid (snd call) store))),
      snd (upserts uid calls (snd (upsert (fst call) uid (snd call) store))))"
  by (simp split: prod.splits)

lemma upserts_invariants:
  assumes "unique_indexes store"
    and "\<forall>call \<in> set calls. b_annee (snd call) = y \<and> b_mois (snd call) = m"
  shows "unique_indexes (snd (upserts uid calls store)) \<and>
         create_then_update (key_count uid y m store = 1) (fst (upserts uid calls store)) \<and>
         key_count uid y m (snd (upserts uid calls store)) =
           (if 201 \<in> set (fst (upserts uid calls store)) then 1 else key_count uid y m store) \<and>
         length (snd (upserts uid calls store)) =
           length store + (if 201 \<in> set (fst (upserts uid calls store)) then 1 else 0) \<and>
         ((\<forall>c \<in> set (fst (upserts uid calls store)). c \<noteq> 200 \<and> c \<noteq> 201) \<longrightarrow>
            snd (upserts uid calls store) = store)"
  using assms
proof (induction calls arbitrary: store)
  case Nil
  then show ?case by simp
next
  case (Cons call calls)
  obtain r s1 where u: "upsert (fst call) uid (snd call) store = (r, s1)"
    by force
  have per: "b_annee (snd call) = y" "b_mois (snd call) = m"
    using Cons.prems(2) by simp_all
  note st = upsert_step [OF Cons.prems(1) per u]
  have inv1: "unique_indexes s1"
    using st by simp
  have rest: "\<forall>call \<in> set calls. b_annee (snd call) = y \<and> b_mois (snd call) = m"
    using Cons.prems(2) by simp
  note IH = Cons.IH [OF inv1 rest]
  let ?cs = "fst (upserts uid calls s1)"
  let ?f = "snd (upserts uid calls s1)"
  have eq: "upserts uid (call # calls) store = (status r # ?cs, ?f)"
    using u by (simp add: upserts_Cons del: upserts.simps)
  consider (created) "status r = 201" | (updated) "status r = 200"
    | (rejected) "status r \<noteq> 200" "status r \<noteq> 201"
    by blast
  then show ?case
  proof cases
    case created
    then have a: "key_count uid y m store = 0" "key_count uid y m s1 = 1"
      "length s1 = Suc (length store)"
      using st by simp_all
    have "create_then_update True ?cs"
      using IH a(2) by simp
    then have n: "201 \<notin> set ?cs"
      by (rule create_then_update_no_second)
    show ?thesis
      using IH a n created by (simp add: eq del: upserts.simps)
  next
    case updated
    then have a: "key_count uid y m store = 1" "key_count uid y m s1 = 1"
      "map p_id s1 = map p_id store"
      using st by simp_all
    have l: "length s1 = length store"
      using a(3) by (metis length_map)
    have "create_then_update True ?cs"
      using IH a(2) by simp
    then have n: "201 \<notin> set ?cs"
      by (rule create_then_update_no_second)
    show ?thesis
      using IH a(1,2) l n updated by (simp add: eq del: upserts.simps)
  next
    case rejected
    then have "s1 = store"
      using st by simp
    then show ?thesis
      using IH rejected by (simp add: eq del: upserts.simps)
  qed
qed

lemma upserts_accepted_existing:
  assumes "unique_indexes store"
    and "\<forall>call \<in> set calls. b_annee (snd call) = y \<and> b_mois (snd call) = m"
    and "\<forall>call \<in> set calls. accepted_body (snd call)"
    and "key_count uid y m store = 1"
  shows "fst (upserts uid calls store) = replicate (length calls) 200"
  using assms
proof (induction calls arbitrary: store)
  case Nil
  then show ?case by simp
next
  case (Cons call calls)
  obtain r s1 where u: "upsert (fst call) uid (snd call) store = (r, s1)"
    by force
  have per: "b_annee (snd call) = y" "b_mois (snd call) = m"
    using Cons.prems(2) by simp_all
  have "status (fst (upsert (fst call) uid (snd call) store)) = 200"
    using upsert_accepted [OF Cons.prems(1), of "snd call" "fst call" uid] Cons.prems(3,4) per
    by simp
  then have r: "status r = 200"
    using u by simp
  note st = upsert_step [OF Cons.prems(1) per u]
  have "fst (upserts uid calls s1) = replicate (length calls) 200"
    using Cons.IH [of s1] Cons.prems(2,3) st r by simp
  then show ?case
    using u r by (simp add: upserts_Cons del: upserts.simps)
qed

lemma upserts_accepted:
  assumes "unique_indexes store"
    and "\<forall>call \<in> set calls. b_annee (snd call) = y \<and> b_mois (snd call) = m"
    and "\<forall>call \<in> set calls. accepted_body (snd call)"
  shows "fst (upserts uid calls store) =
           (if key_count uid y m store = 0
            then (case calls of [] \<Rightarrow> [] | call # later \<Rightarrow> 201 # replicate (length later) 200)
            else replicate (length calls) 200)"
proof (cases "key_count uid y m store = 0")
  case False
  then have "key_count uid y m store = 1"
    using key_count_le_1 [OF assms(1), of uid y m] by simp
  then show ?thesis
    using upserts_accepted_existing [OF assms] by simp
next
  case k0: True
  show ?thesis
  proof (cases calls)
    case Nil
    then show ?thesis using k0 by simp
  next
    case (Cons call later)
    obtain r s1 where u: "upsert (fst call) uid (snd call) store = (r, s1)"
      by force
    have per: "b_annee (snd call) = y" "b_mois (snd call) = m"
      using assms(2) Cons by simp_all
    have "status (fst (upsert (fst call) uid (snd call) store)) = 201"
      using upsert_accepted [OF assms(1), of "snd call" "fst call" uid] assms(3) k0 per Cons
      by simp
    then have r: "status r = 201"
      using u by simp
    note st = upsert_step [OF assms(1) per u]
    have "fst (upserts uid later s1) = replicate (length later) 200"
      using upserts_accepted_existing [of s1 later y m uid] assms(2,3) st r Cons by simp
    then show ?thesis
      using u r k0 Cons by (simp add: upserts_Cons del: upserts.simps)
  qed
qed

lemma update_first_map:
  assumes "distinct (map p_id s)" and "e \<in> set s"
  shows "update_first (p_id e) f s = map (\<lambda>q. if p_id q = p_id e then f e else q) s"
  using assms
proof (induction s)
  case Nil
  then show ?case by simp
next
  case (Cons p ps)
  show ?case
  proof (cases "p_id p = p_id e")
    case True
    then have pe: "p = e" using Cons.prems by force
    have "\<forall>q \<in> set ps. p_id q \<noteq> p_id e"
      using Cons.prems(1) True by (auto simp: image_iff)
    then have "map (\<lambda>q. if p_id q = p_id e then f e else q) ps = ps"
      by (simp add: map_idI)
    then show ?thesis using True pe by simp
  next
    case False
    then show ?thesis using Cons by auto
  qed
qed

lemma findById_update_first:
  assumes "e \<in> set s" and "\<And>q. p_id (f q) = p_id q" and "distinct (map p_id s)"
  shows "findById (update_first (p_id e) f s) (p_id e) = Some (f e)"
  using assms
proof (induction s)
  case Nil
  then show ?case by simp
next
  case (Cons p ps)
  show ?case
  proof (cases "p_id p = p_id e")
    case True
    then have "p = e" using Cons.prems by force
    then show ?thesis using Cons.prems(2) by (simp add: findById_def)
  next
    case False
    then have "findById (update_first (p_id e) f ps) (p_id e) = Some (f e)"
      using Cons by auto
    then show ?thesis using False by (simp add: findById_def)
  qed
qed

lemma holds_body_apply_update: "holds_body uid b (apply_update uid b e)"
  by (simp add: holds_body_def apply_update_def split: option.splits)

lemma keeps_unnamed_apply_update: "keeps_unnamed b e (apply_update uid b e)"
  by (simp add: keeps_unnamed_def apply_update_def split: option.splits)

lemma holds_body_new_performance: "holds_body uid b (new_performance now i uid b)"
  by (simp add: holds_body_def new_performance_def split: option.splits)

lemma schema_defaults_new_performance: "schema_defaults now b (new_performance now i uid b)"
  by (simp add: schema_defaults_def new_performance_def split: option.splits)

lemma upsert_content:
  assumes "unique_indexes s" and "upsert now uid b s = (r, s')"
  shows "(status r = 201 \<longrightarrow> created now uid b s r s') \<and>
         (status r = 200 \<longrightarrow> updated_in_place uid b s r s') \<and>
         (status r \<noteq> 200 \<and> status r \<noteq> 201 \<longrightarrow> s' = s)"
proof (cases "body_valid b")
  case False
  then show ?thesis using assms by (auto simp: upsert_def failure_def)
next
  case valid: True
  show ?thesis
  proof (cases "findOne_period s uid (b_annee b) (b_mois b)")
    case None
    show ?thesis
    proof (cases "Performance_create now uid b s")
      case (Inl e)
      then show ?thesis
        using assms valid None by (auto simp: upsert_def failure_def split: if_splits)
    next
      case (Inr ps)
      let ?doc = "new_performance now (new_id (map p_id s)) uid b"
      have ps: "ps = (?doc, s @ [?doc])"
        using Inr by (auto simp: Performance_create_def Let_def split: if_splits)
      have r: "r = Response 201 True (Some DonneesCreees) (Some ?doc)" "s' = s @ [?doc]"
        using assms(2) valid None Inr ps by (auto simp: upsert_def)
      have "p_id ?doc \<notin> set (map p_id s)"
        using new_id_fresh [of "map p_id s"] by (simp add: new_performance_sel)
      then have "created now uid b s r s'"
        using None r holds_body_new_performance [of uid b now]
          schema_defaults_new_performance [of now b _ uid]
        by (simp add: created_def)
      then show ?thesis
        using r by simp
    qed
  next
    case (Some e)
    show ?thesis
    proof (cases "update_valid b")
      case False
      then show ?thesis
        using assms valid Some
        by (auto simp: upsert_def findByIdAndUpdate_def failure_def split: if_splits)
    next
      case True
      let ?s = "update_first (p_id e) (apply_update uid b) s"
      have e: "e \<in> set s"
        using findOne_period_Some [OF Some] by simp
      have d: "distinct (map p_id s)"
        using assms(1) by (simp add: unique_indexes_def)
      have r: "r = Response 200 True (Some DonneesMisesAJour) (findById ?s (p_id e))" "s' = ?s"
        using assms(2) valid Some True
        by (auto simp: upsert_def findByIdAndUpdate_def Let_def)
      have f: "findById ?s (p_id e) = Some (apply_update uid b e)"
        using e p_id_apply_update d by (rule findById_update_first)
      have m: "?s = map (\<lambda>q. if p_id q = p_id e then apply_update uid b e else q) s"
        using d e by (rule update_first_map)
      have "updated_in_place uid b s r s'"
        using Some r f m holds_body_apply_update [of uid b e] keeps_unnamed_apply_update [of b e uid]
        by (simp add: updated_in_place_def)
      then show ?thesis
        using r by simp
    qed
  qed
qed

lemma upserts_append:
  "upserts uid (xs @ ys) store =
     (fst (upserts uid xs store) @ fst (upserts uid ys (snd (upserts uid xs store))),
      snd (upserts uid ys (snd (upserts uid xs store))))"
proof (induction xs arbitrary: store)
  case Nil
  then show ?case by simp
next
  case (Cons x xs)
  show ?case
    using Cons [of "snd (upsert (fst x) uid (snd x) store)"]
    by (simp add: upserts_Cons del: upserts.simps(2))
qed

lemma length_upserts: "length (fst (upserts uid calls store)) = length calls"
  by (induction calls arbitrary: store) (simp_all add: upserts_Cons del: upserts.simps(2))

lemma upserts_each_call:
  assumes "unique_indexes store"
    and "\<forall>call \<in> set calls. b_annee (snd call) = y \<and> b_mois (snd call) = m"
    and "calls = pre @ call # post"
    and "upsert (fst call) uid (snd call) (snd (upserts uid pre store)) = (r, s')"
  shows "fst (upserts uid calls store) ! length pre = status r \<and>
         snd (upserts uid (pre @ [call]) store) = s' \<and>
         (status r = 201 \<longrightarrow>
            created (fst call) uid (snd call) (snd (upserts uid pre store)) r s') \<and>
         (status r = 200 \<longrightarrow>
            updated_in_place uid (snd call) (snd (upserts uid pre store)) r s') \<and>
         (status r \<noteq> 200 \<and> status r \<noteq> 201 \<longrightarrow> s' = snd (upserts uid pre store))"
proof -
  define s where "s = snd (upserts uid pre store)"
  have u: "upsert (fst call) uid (snd call) s = (r, s')"
    using assms(4) by (simp add: s_def)
  have "\<forall>call \<in> set pre. b_annee (snd call) = y \<and> b_mois (snd call) = m"
    using assms(2,3) by simp
  then have inv: "unique_indexes s"
    using upserts_invariants [OF assms(1), of pre y m uid] by (simp add: s_def)
  have 1: "snd (upserts uid (pre @ [call]) store) = s'"
    using u by (simp add: upserts_append s_def upserts_Cons del: upserts.simps(2))
  have "fst (upserts uid calls store) =
      fst (upserts uid pre store) @ status r # fst (upserts uid post s')"
    using u unfolding assms(3)
    by (simp add: upserts_append [of uid pre] s_def upserts_Cons del: upserts.simps(2))
  then have 2: "fst (upserts uid calls store) ! length pre = status r"
    using length_upserts [of uid pre store] by (simp add: nth_append)
  show ?thesis
    using upsert_content [OF inv u] 1 2 unfolding s_def by blast
qed

text \<open>
  C1. For every user and every sequence of upserts by that user for one period, from a
  store whose unique indexes hold: the store keeps at most one record under the key (user,
  year, month). The first call for a key without a record is answered 201 (created) and
  every later one 200 (updated), the bodies being ones no check rejects; whatever the
  bodies, 201 is answered only while no record exists for the key and 200 only once one
  exists, calls that are all rejected leave the store as it was, and the store grows by one
  record when a call is answered 201 and by none otherwise. Every call of the sequence
  acts on the store the calls before it left: a call answered 201 found no record under
  the key and appended the record of its reply, which holds the values of the body and the
  defaults of the schema; a call answered 200 found a record under the key and put the
  record of its reply in its place, which holds the values of the body under the
  \<^verbatim>\<open>_id\<close> of the record it replaces, every other record staying where and as it was;
  a call answered otherwise left the store as it was.
\<close>

theorem upserts_one_record_per_period:
  assumes "unique_indexes store"
    and "\<forall>call \<in> set calls. b_annee (snd call) = y \<and> b_mois (snd call) = m"
  shows "unique_indexes (snd (upserts uid calls store)) \<and>
         key_count uid y m (snd (upserts uid calls store)) \<le> 1 \<and>
         create_then_update (key_count uid y m store = 1) (fst (upserts uid calls store)) \<and>
         key_count uid y m (snd (upserts uid calls store)) =
           (if 201 \<in> set (fst (upserts uid calls store)) then 1 else key_count uid y m store) \<and>
         length (snd (upserts uid calls store)) =
           length store + (if 201 \<in> set (fst (upserts uid calls store)) then 1 else 0) \<and>
         ((\<forall>c \<in> set (fst (upserts uid calls store)). c \<noteq> 200 \<and> c \<noteq> 201) \<longrightarrow>
            snd (upserts uid calls store) = store) \<and>
         ((\<forall>call \<in> set calls. accepted_body (snd call)) \<longrightarrow>
            fst (upserts uid calls store) =
              (if key_count uid y m store = 0
               then (case calls of [] \<Rightarrow> [] | call # later \<Rightarrow> 201 # replicate (length later) 200)
               else replicate (length calls) 200)) \<and>
         (\<forall>pre call post s r s'.
            calls = pre @ call # post \<and> s = snd (upserts uid pre store) \<and>
            upsert (fst call) uid (snd call) s = (r, s') \<longrightarrow>
              fst (upserts uid calls store) ! length pre = status r \<and>
              snd (upserts uid (pre @ [call]) store) = s' \<and>
              (status r = 201 \<longrightarrow> created (fst call) uid (snd call) s r s') \<and>
              (status r = 200 \<longrightarrow> updated_in_place uid (snd call) s r s') \<and>
              (status r \<noteq> 200 \<and> status r \<noteq> 201 \<longrightarrow> s' = s))"
proof -
  note i = upserts_invariants [OF assms, of uid]
  then have k: "key_count uid y m (snd (upserts uid calls store)) \<le> 1"
    using key_count_le_1 by blast
  have e: "\<forall>pre call post s r s'.
      calls = pre @ call # post \<and> s = snd (upserts uid pre store) \<and>
      upsert (fst call) uid (snd call) s = (r, s') \<longrightarrow>
        fst (upserts uid calls store) ! length pre = status r \<and>
        snd (upserts uid (pre @ [call]) store) = s' \<and>
        (status r = 201 \<longrightarrow> created (fst call) uid (snd call) s r s') \<and>
        (status r = 200 \<longrightarrow> updated_in_place uid (snd call) s r s') \<and>
        (status r \<noteq> 200 \<and> status r \<noteq> 201 \<longrightarrow> s' = s)"
  proof (intro allI impI, elim conjE)
    fix pre call post s r s'
    assume c: "calls = pre @ call # post" and s: "s = snd (upserts uid pre store)"
      and u: "upsert (fst call) uid (snd call) s = (r, s')"
    show "fst (upserts uid calls store) ! length pre = status r \<and>
        snd (upserts uid (pre @ [call]) store) = s' \<and>
        (status r = 201 \<longrightarrow> created (fst call) uid (snd call) s r s') \<and>
        (status r = 200 \<longrightarrow> updated_in_place uid (snd call) s r s') \<and>
        (status r \<noteq> 200 \<and> status r \<noteq> 201 \<longrightarrow> s' = s)"
      using upserts_each_call [OF assms c u [unfolded s]] unfolding s .
  qed
  have a: "(\<forall>call \<in> set calls. accepted_body (snd call)) \<longrightarrow>
      fst (upserts uid calls store) =
        (if key_count uid y m store = 0
         then (case calls of [] \<Rightarrow> [] | call # later \<Rightarrow> 201 # replicate (length later) 200)
         else replicate (length calls) 200)"
    using upserts_accepted [OF assms, of uid] by blast
  show ?thesis
    using i k a e by (intro conjI) blast+
qed

theorem upserts_one_record_per_period_witness:
  "unique_indexes [] \<and>
   accepted_body body_mars \<and> accepted_body (body_mars\<lparr>b_ventesRealisees := 25\<rparr>) \<and>
   fst (upserts 1 [(5, body_mars), (6, body_mars\<lparr>b_ventesRealisees := 25\<rparr>)] []) = [201, 200] \<and>
   snd (upserts 1 [(5, body_mars)] []) = [new_performance 5 1 1 body_mars] \<and>
   upsert 6 1 (body_mars\<lparr>b_ventesRealisees := 25\<rparr>) [new_performance 5 1 1 body_mars] =
     (Response 200 True (Some DonneesMisesAJour)
        (Some ((new_performance 5 1 1 body_mars)\<lparr>ventesRealisees := 25\<rparr>)),
      [(new_performance 5 1 1 body_mars)\<lparr>ventesRealisees := 25\<rparr>]) \<and>
   updated_in_place 1 (body_mars\<lparr>b_ventesRealisees := 25\<rparr>) [new_performance 5 1 1 body_mars]
     (Response 200 True (Some DonneesMisesAJour)
        (Some ((new_performance 5 1 1 body_mars)\<lparr>ventesRealisees := 25\<rparr>)))
     [(new_performance 5 1 1 body_mars)\<lparr>ventesRealisees := 25\<rparr>] \<and>
   snd (upserts 1 [(5, body_mars), (6, body_mars\<lparr>b_ventesRealisees := 25\<rparr>)] []) =
     [(new_performance 5 1 1 body_mars)\<lparr>ventesRealisees := 25\<rparr>] \<and>
   ventesRealisees (new_performance 5 1 1 body_mars) = 20 \<and>
   key_count 1 2024 3 (snd (upserts 1 [(5, body_mars), (6, body_mars\<lparr>b_ventesRealisees := 25\<rparr>)] [])) = 1 \<and>
   length (snd (upserts 1 [(5, body_mars), (6, body_mars\<lparr>b_ventesRealisees := 25\<rparr>)] [])) = 1"
proof -
  let ?b = "body_mars\<lparr>b_ventesRealisees := 25\<rparr>"
  let ?calls = "[(5, body_mars), (6, ?b)]"
  let ?p = "new_performance 5 1 1 body_mars"
  let ?r = "Response 200 True (Some DonneesMisesAJour) (Some (?p\<lparr>ventesRealisees := 25\<rparr>))"
  have u: "unique_indexes []"
    by (simp add: unique_indexes_def)
  have k: "key_count 1 2024 3 [] = 0"
    by (simp add: key_count_def)
  have a: "accepted_body body_mars" "accepted_body ?b"
    by (simp_all add: accepted_body_def body_valid_def isInt_def isNumeric_def isFloat_def
          decimal_notation_def update_valid_def schema_valid_def
          pre_save_def new_performance_def body_mars_def)
  have p: "\<forall>call \<in> set ?calls. b_annee (snd call) = 2024 \<and> b_mois (snd call) = 3"
    by (simp add: body_mars_def)
  have s1: "snd (upserts 1 [(5, body_mars)] []) = [?p]"
    by (simp add: upsert_def Performance_create_def findOne_period_def
          body_valid_def isInt_def isNumeric_def isFloat_def decimal_notation_def
          schema_valid_def pre_save_def new_performance_def new_id_def body_mars_def Let_def)
  have s2: "upsert 6 1 ?b [?p] = (?r, [?p\<lparr>ventesRealisees := 25\<rparr>])"
    by (simp add: upsert_def findByIdAndUpdate_def findOne_period_def
          findById_def body_valid_def isInt_def isNumeric_def isFloat_def decimal_notation_def
          update_valid_def apply_update_def new_performance_def body_mars_def Let_def)
  have v: "ventesRealisees ?p = 20"
    by (simp add: new_performance_def body_mars_def)
  note t = upserts_one_record_per_period [OF u p, of 1]
  from t a have c: "fst (upserts 1 ?calls []) = [201, 200]"
    using k by simp
  from t c have n: "key_count 1 2024 3 (snd (upserts 1 ?calls [])) = 1 \<and>
      length (snd (upserts 1 ?calls [])) = 1"
    by simp
  note each = t [THEN conjunct2, THEN conjunct2, THEN conjunct2, THEN conjunct2,
      THEN conjunct2, THEN conjunct2, THEN conjunct2, rule_format,
      of "[(5, body_mars)]" "(6, ?b)" "[]" "[?p]" ?r "[?p\<lparr>ventesRealisees := 25\<rparr>]"]
  have h: "?calls = [(5, body_mars)] @ (6, ?b) # [] \<and>
      [?p] = snd (upserts 1 [(5, body_mars)] []) \<and>
      upsert (fst (6, ?b)) 1 (snd (6, ?b)) [?p] = (?r, [?p\<lparr>ventesRealisees := 25\<rparr>])"
    using s1 s2 by simp
  have e: "snd (upserts 1 ?calls []) = [?p\<lparr>ventesRealisees := 25\<rparr>] \<and>
      updated_in_place 1 ?b [?p] ?r [?p\<lparr>ventesRealisees := 25\<rparr>]"
    using each [OF h] by simp
  show ?thesis
    using u a c s1 s2 v n e by (intro conjI) simp_all
qed

section \<open>Coherence of a written record\<close>

lemma upsert_create_rejects_incoherent:
  assumes "findOne_period store uid (b_annee b) (b_mois b) = None"
    and "b_ventesRealisees b > b_rdvRealises b \<or> b_dossiersMAJ b > b_totalDossiers b"
  shows "snd (upsert now uid b store) = store \<and>
         status (fst (upsert now uid b store)) \<in> {400, 500}"
proof -
  have "\<not> pre_save (new_performance now i uid b)" for i
    using assms(2) by (auto simp: pre_save_def new_performance_def)
  then show ?thesis
    using assms(1) by (simp add: upsert_def Performance_create_def Let_def failure_def)
qed

lemma upsert_update_ignores_coherence:
  assumes "findOne_period store uid (b_annee b) (b_mois b) = Some e"
    and "body_valid b" and "update_valid b"
  shows "upsert now uid b store =
           (Response 200 True (Some DonneesMisesAJour)
              (findById (update_first (p_id e) (apply_update uid b) store) (p_id e)),
            update_first (p_id e) (apply_update uid b) store)"
  using assms by (simp add: upsert_def findByIdAndUpdate_def Let_def)

text \<open>
  C2 does not hold of the update path. The store has Marie's record for March 2024 with 40
  appointments and 150 files; her upsert for the same period with 50 sales and 200 updated
  files is answered 200 and the incoherent record is stored: a query does not run the
  pre-save hook. The same body for a period without a record is rejected by the hook (the
  reply is 500) and nothing is stored.
\<close>

theorem upsert_update_skips_coherence_check:
  "upsert 9 1 (body_mars\<lparr>b_ventesRealisees := 50, b_dossiersMAJ := 200\<rparr>) [perf_mars] =
     (Response 200 True (Some DonneesMisesAJour)
        (Some (perf_mars\<lparr>ventesRealisees := 50, dossiersMAJ := 200\<rparr>)),
      [perf_mars\<lparr>ventesRealisees := 50, dossiersMAJ := 200\<rparr>]) \<and>
   rdvRealises perf_mars = 40 \<and> totalDossiers perf_mars = 150 \<and>
   upsert 9 1 (body_mars\<lparr>b_ventesRealisees := 50, b_dossiersMAJ := 200\<rparr>) [] =
     (failure 500 ErreurServeur, [])"
  by (simp add: upsert_def findByIdAndUpdate_def Performance_create_def findOne_period_def
        findById_def body_valid_def isInt_def isNumeric_def isFloat_def decimal_notation_def
        update_valid_def schema_valid_def pre_save_def
        apply_update_def new_performance_def new_id_def perf_mars_def body_mars_def Let_def)

section \<open>What the routes maintain\<close>

text \<open>
  The hypotheses of the statements above that speak of the stores hold of the stores the
  routes produce: every stored record satisfies the validators of the schema, the owner of
  every stored record is a stored user, and no route removes a user.
\<close>

lemma update_first_mem:
  "p \<in> set (update_first i f store) \<Longrightarrow> p \<in> set store \<or> (\<exists>q \<in> set store. p = f q)"
  by (induction store) (auto split: if_splits)

lemma remove_first_mem: "p \<in> set (remove_first i store) \<Longrightarrow> p \<in> set store"
  by (induction store) (auto split: if_splits)

lemma upsert_mem:
  assumes "p \<in> set (snd (upsert now uid b store))"
  shows "p \<in> set store \<or>
         (body_valid b \<and> update_valid b \<and> (\<exists>q \<in> set store. p = apply_update uid b q)) \<or>
         (p = new_performance now (new_id (map p_id store)) uid b \<and> schema_valid p)"
  using assms
  by (auto simp: upsert_def findByIdAndUpdate_def Performance_create_def Let_def
        dest!: update_first_mem split: if_splits option.splits)

lemma schema_valid_apply_update:
  "update_valid b \<Longrightarrow> schema_valid q \<Longrightarrow> schema_valid (apply_update uid b q)"
  by (auto simp: update_valid_def schema_valid_def apply_update_def split: option.splits)

lemma upsert_keeps_schema_valid:
  assumes "\<forall>p \<in> set store. schema_valid p"
  shows "\<forall>p \<in> set (snd (upsert now uid b store)). schema_valid p"
  using assms upsert_mem [of _ now uid b store] schema_valid_apply_update [of b _ uid]
  by blast

lemma upsert_keeps_owners:
  assumes "\<forall>p \<in> set store. findById_user users (utilisateur p) \<noteq> None"
    and "findById_user users uid \<noteq> None"
  shows "\<forall>p \<in> set (snd (upsert now uid b store)). findById_user users (utilisateur p) \<noteq> None"
proof
  fix p
  assume "p \<in> set (snd (upsert now uid b store))"
  then consider "p \<in> set store" | "utilisateur p = uid"
    using upsert_mem [of p now uid b store]
    by (auto simp: apply_update_def new_performance_def)
  then show "findById_user users (utilisateur p) \<noteq> None"
    using assms by cases auto
qed

lemma delete_keeps_owners:
  assumes "\<forall>p \<in> set store. findById_user users (utilisateur p) \<noteq> None"
  shows "\<forall>p \<in> set (snd (deletePerformance store req_user i)).
           findById_user users (utilisateur p) \<noteq> None"
  using assms
  by (auto simp: deletePerformance_def dest: remove_first_mem split: option.splits)

lemma findById_user_None: "findById_user users i = None \<longleftrightarrow> i \<notin> u_id ` set users"
  by (auto simp: findById_user_def find_None_iff)

lemma login_keeps_users: "u_id ` set (snd (login L now users req)) = u_id ` set users"
proof -
  have s: "map u_id (save_user (f u) users) = map u_id users" if "u_id (f u) = u_id u" for f u
    using that by (induction users) (auto simp: save_user_def)
  have "map u_id (snd (login L now users req)) = map u_id users"
    by (auto simp: login_def Let_def incrementLoginAttempts_def updateLastLogin_def
          intro!: s split: option.splits)
  then show ?thesis
    by (metis list.set_map)
qed

lemma register_keeps_users: "u_id ` set users \<subseteq> u_id ` set (snd (register L now users req))"
  by (auto simp: register_def User_create_def Let_def split: if_splits)

end
